theory Spec2Isabelle
  imports Complex_Main "HOL-Library.Product_Lexorder"
begin

section \<open>Numbers of the score columns\<close>

text \<open>
  The score columns of \<^verbatim>\<open>recommendation2.py\<close> are pandas Series of float64. A value is
  modelled as a real, one of the two infinities, or NaN. Overflow is modelled: a result
  of magnitude \<open>2^1024 - 2^970\<close> or more (where rounding to nearest leaves the finite
  range) is an infinity. Rounding within the finite range and the sign of zero are not
  modelled: a finite result is the exact one, and a zero divisor is the \<open>+0\<close> that
  \<open>max - min\<close> yields. pandas never raises on a float division by zero: \<open>0 / 0\<close> is
  NaN and \<open>x / 0\<close> is an infinity.
\<close>

datatype fl = NaN | NInf | Fin real | PInf

definition overflow_bound :: real where
  "overflow_bound = 2 ^ 1024 - 2 ^ 970"

definition round_overflow :: "real \<Rightarrow> fl" where
  "round_overflow r =
     (if overflow_bound \<le> r then PInf else if r \<le> - overflow_bound then NInf else Fin r)"

fun fneg :: "fl \<Rightarrow> fl" where
  "fneg NaN = NaN"
| "fneg NInf = PInf"
| "fneg PInf = NInf"
| "fneg (Fin a) = Fin (- a)"

fun fadd :: "fl \<Rightarrow> fl \<Rightarrow> fl" where
  "fadd NaN _ = NaN"
| "fadd _ NaN = NaN"
| "fadd (Fin a) (Fin b) = round_overflow (a + b)"
| "fadd PInf NInf = NaN"
| "fadd NInf PInf = NaN"
| "fadd PInf _ = PInf"
| "fadd _ PInf = PInf"
| "fadd NInf _ = NInf"
| "fadd _ NInf = NInf"

definition fsub :: "fl \<Rightarrow> fl \<Rightarrow> fl" where
  "fsub a b = fadd a (fneg b)"

text \<open>The sign of a non-NaN value: \<open>-1\<close>, \<open>0\<close> or \<open>1\<close>.\<close>

fun fsgn :: "fl \<Rightarrow> int" where
  "fsgn NaN = 0"
| "fsgn NInf = - 1"
| "fsgn PInf = 1"
| "fsgn (Fin a) = (if a < 0 then - 1 else if a = 0 then 0 else 1)"

definition signed_inf :: "int \<Rightarrow> fl" where
  "signed_inf s = (if s = 0 then NaN else if s < 0 then NInf else PInf)"

fun fmul :: "fl \<Rightarrow> fl \<Rightarrow> fl" where
  "fmul NaN _ = NaN"
| "fmul _ NaN = NaN"
| "fmul (Fin a) (Fin b) = round_overflow (a * b)"
| "fmul a b = signed_inf (fsgn a * fsgn b)"

fun fdiv :: "fl \<Rightarrow> fl \<Rightarrow> fl" where
  "fdiv NaN _ = NaN"
| "fdiv _ NaN = NaN"
| "fdiv (Fin a) (Fin b) =
     (if b = 0 then signed_inf (fsgn (Fin a)) else round_overflow (a / b))"
| "fdiv (Fin a) _ = Fin 0"
| "fdiv a (Fin b) = signed_inf (fsgn a * (if b < 0 then - 1 else 1))"
| "fdiv _ _ = NaN"

text \<open>The comparison \<open>\<le>\<close> of float64: false as soon as one side is NaN.\<close>

fun fle :: "fl \<Rightarrow> fl \<Rightarrow> bool" where
  "fle NaN _ = False"
| "fle _ NaN = False"
| "fle NInf _ = True"
| "fle _ PInf = True"
| "fle (Fin a) (Fin b) = (a \<le> b)"
| "fle _ _ = False"


subsection \<open>Series.min and Series.max\<close>

text \<open>
  \<^verbatim>\<open>Series.min()\<close> and \<^verbatim>\<open>Series.max()\<close> skip NaN (\<open>skipna=True\<close>) and are NaN on
  a series with no other value.
\<close>

definition dropna :: "fl list \<Rightarrow> fl list" where
  "dropna xs = filter (\<lambda>x. x \<noteq> NaN) xs"

definition fmin2 :: "fl \<Rightarrow> fl \<Rightarrow> fl" where
  "fmin2 a b = (if fle a b then a else b)"

definition fmax2 :: "fl \<Rightarrow> fl \<Rightarrow> fl" where
  "fmax2 a b = (if fle a b then b else a)"

definition series_min :: "fl list \<Rightarrow> fl" where
  "series_min xs = (case dropna xs of [] \<Rightarrow> NaN | y # ys \<Rightarrow> foldl fmin2 y ys)"

definition series_max :: "fl list \<Rightarrow> fl" where
  "series_max xs = (case dropna xs of [] \<Rightarrow> NaN | y # ys \<Rightarrow> foldl fmax2 y ys)"

subsection \<open>normalize\_score\<close>

text \<open>
  \<^verbatim>\<open>
  def normalize_score(series):
      """Normalize the score series to a range of 0 to 1."""
      return (series - series.min()) / (series.max() - series.min())
  \<close>
\<close>

definition normalize_score :: "fl list \<Rightarrow> fl list" where
  "normalize_score series =
     map (\<lambda>x. fdiv (fsub x (series_min series))
                     (fsub (series_max series) (series_min series))) series"


section \<open>Tables\<close>

text \<open>
  The exceptions that the pandas and numpy operations used by the pipeline raise;
  \<open>KeyError\<close> carries the missing label.
\<close>

datatype error = KeyError string | IndexError | ValueError | TypeError

definition bind_res :: "error + 'a \<Rightarrow> ('a \<Rightarrow> error + 'b) \<Rightarrow> error + 'b" where
  "bind_res m f = (case m of Inl e \<Rightarrow> Inl e | Inr x \<Rightarrow> f x)"

fun sequence_res :: "(error + 'a) list \<Rightarrow> error + 'a list" where
  "sequence_res [] = Inr []"
| "sequence_res (m # ms) =
     bind_res m (\<lambda>x. bind_res (sequence_res ms) (\<lambda>xs. Inr (x # xs)))"

text \<open>
  A cell of a DataFrame: an integer (\<open>Band ID\<close>), a string (\<open>Genre\<close>, \<open>Themes:\<close>,
  \<open>Country\<close>), a list of genre tags (\<open>Processed Genre\<close>) or a float (the scores).
\<close>

datatype cell = IntC int | StrC string | TagsC "string list" | NumC fl

text \<open>
  A DataFrame is column-major, as in pandas: the row labels (\<open>df.index\<close>) and the
  columns in order, each a name with one cell per row.
\<close>

record dataframe =
  index :: "int list"
  columns :: "(string \<times> cell list) list"

definition wf_df :: "dataframe \<Rightarrow> bool" where
  "wf_df df = (distinct (map fst (columns df))
     \<and> list_all (\<lambda>cv. length (snd cv) = length (index df)) (columns df))"

text \<open>\<^verbatim>\<open>pd.DataFrame()\<close>\<close>

definition empty_frame :: dataframe where
  "empty_frame = \<lparr>index = [], columns = []\<rparr>"

text \<open>\<^verbatim>\<open>df.empty\<close>: one of the two axes has length 0.\<close>

definition df_empty :: "dataframe \<Rightarrow> bool" where
  "df_empty df = (index df = [] \<or> columns df = [])"

text \<open>\<^verbatim>\<open>df[name]\<close>\<close>

definition getitem :: "dataframe \<Rightarrow> string \<Rightarrow> error + cell list" where
  "getitem df name =
     (case map_of (columns df) name of None \<Rightarrow> Inl (KeyError name) | Some vs \<Rightarrow> Inr vs)"

text \<open>
  \<^verbatim>\<open>df[name] = values\<close> for an array of values: an existing column is overwritten in
  its place, a new one is appended. On a frame without rows a non-empty array becomes
  the rows (the other columns are filled with NaN); any other length mismatch raises.
\<close>

fun assign_col :: "string \<Rightarrow> cell list \<Rightarrow> (string \<times> cell list) list \<Rightarrow> (string \<times> cell list) list" where
  "assign_col name vs [] = [(name, vs)]"
| "assign_col name vs ((c, ws) # cols) =
     (if c = name then (c, vs) # cols else (c, ws) # assign_col name vs cols)"

definition setitem :: "dataframe \<Rightarrow> string \<Rightarrow> cell list \<Rightarrow> error + dataframe" where
  "setitem df name vs =
     (if length vs = length (index df)
      then Inr (df\<lparr>columns := assign_col name vs (columns df)\<rparr>)
      else if index df = []
      then Inr \<lparr>index = map int [0..<length vs],
                columns = assign_col name vs
                  (map (\<lambda>cv. (fst cv, replicate (length vs) (NumC NaN))) (columns df))\<rparr>
      else Inl ValueError)"

text \<open>\<^verbatim>\<open>df.drop(columns=names, inplace=True)\<close>: a label that is no column raises.\<close>

definition drop_columns :: "dataframe \<Rightarrow> string list \<Rightarrow> error + dataframe" where
  "drop_columns df names =
     (case filter (\<lambda>n. n \<notin> set (map fst (columns df))) names of
        [] \<Rightarrow> Inr (df\<lparr>columns := filter (\<lambda>cv. fst cv \<notin> set names) (columns df)\<rparr>)
      | n # _ \<Rightarrow> Inl (KeyError n))"

text \<open>
  Row selection by position (\<^verbatim>\<open>df.take\<close>); the labels travel with the rows. The
  positions come from a mask or a sort of the frame's own rows, so they are in range.
\<close>

definition take_rows :: "dataframe \<Rightarrow> nat list \<Rightarrow> dataframe" where
  "take_rows df ps =
     \<lparr>index = map (\<lambda>p. index df ! p) ps,
      columns = map (\<lambda>cv. (fst cv, map (\<lambda>p. snd cv ! p) ps)) (columns df)\<rparr>"

definition mask_positions :: "bool list \<Rightarrow> nat list" where
  "mask_positions keep = filter (\<lambda>i. keep ! i) [0..<length keep]"

text \<open>\<^verbatim>\<open>df[mask]\<close> for a boolean mask with one entry per row.\<close>

definition select_mask :: "dataframe \<Rightarrow> bool list \<Rightarrow> dataframe" where
  "select_mask df keep = take_rows df (mask_positions keep)"

text \<open>\<^verbatim>\<open>df.reset_index(drop=True)\<close>\<close>

definition reset_index :: "dataframe \<Rightarrow> dataframe" where
  "reset_index df = df\<lparr>index := map int [0..<length (index df)]\<rparr>"

text \<open>The rows of a frame, each as the list of its named cells, in row order.\<close>

definition row_at :: "dataframe \<Rightarrow> nat \<Rightarrow> (string \<times> cell) list" where
  "row_at df p = map (\<lambda>cv. (fst cv, snd cv ! p)) (columns df)"

definition rows :: "dataframe \<Rightarrow> (string \<times> cell) list list" where
  "rows df = map (row_at df) [0..<length (index df)]"

text \<open>The value of a cell in arithmetic; a string or a list there raises.\<close>

fun to_num :: "cell \<Rightarrow> error + fl" where
  "to_num (NumC x) = Inr x"
| "to_num (IntC i) = Inr (Fin (of_int i))"
| "to_num _ = Inl TypeError"

definition numeric_column :: "dataframe \<Rightarrow> string \<Rightarrow> error + fl list" where
  "numeric_column df name =
     bind_res (getitem df name) (\<lambda>vs. sequence_res (map to_num vs))"

subsection \<open>Descending order of a score column\<close>

text \<open>
  The stable descending order: the rows without NaN by descending value, rows of equal
  value in their original order, then the rows with NaN in their original order. The key
  turns the descending order of the non-NaN values into an ascending one.
\<close>

fun desc_key :: "fl \<Rightarrow> int \<times> real" where
  "desc_key PInf = (- 1, 0)"
| "desc_key (Fin a) = (0, - a)"
| "desc_key NInf = (1, 0)"
| "desc_key NaN = (2, 0)"

definition argsort_desc :: "fl list \<Rightarrow> nat list" where
  "argsort_desc vs =
     sort_key (\<lambda>i. desc_key (vs ! i)) (filter (\<lambda>i. vs ! i \<noteq> NaN) [0..<length vs])
     @ filter (\<lambda>i. vs ! i = NaN) [0..<length vs]"

text \<open>
  \<^verbatim>\<open>Series.sort_values(ascending=False)\<close> sorts with numpy's \<^verbatim>\<open>argsort(kind='quicksort')\<close>,
  which does not fix the order of equal values. That argsort is a parameter of the model:
  from an array without NaN it gives the positions in an order of ascending values
  (\<open>is_argsort\<close>); nothing else is known of it. pandas applies it to the non-NaN values
  taken in reverse, reverses the result, and puts the positions with NaN last:
  \<^verbatim>\<open>
  non_nans = non_nans[::-1]; non_nan_idx = non_nan_idx[::-1]
  indexer = non_nan_idx[non_nans.argsort(kind=kind)]
  indexer = indexer[::-1]
  indexer = np.concatenate([indexer, nan_idx])
  \<close>
\<close>

type_synonym argsorter = "fl list \<Rightarrow> nat list"

definition is_argsort :: "argsorter \<Rightarrow> bool" where
  "is_argsort argsort =
     (\<forall>vs. NaN \<notin> set vs \<longrightarrow>
        distinct (argsort vs) \<and> set (argsort vs) = {0..<length vs}
        \<and> sorted_wrt (\<lambda>i j. fle (vs ! i) (vs ! j)) (argsort vs))"

definition sort_values_desc :: "argsorter \<Rightarrow> fl list \<Rightarrow> nat list" where
  "sort_values_desc argsort vs =
     (let non_nan_idx = rev (filter (\<lambda>i. vs ! i \<noteq> NaN) [0..<length vs]);
          non_nans = map (\<lambda>i. vs ! i) non_nan_idx
      in rev (map (\<lambda>k. non_nan_idx ! k) (argsort non_nans))
         @ filter (\<lambda>i. vs ! i = NaN) [0..<length vs])"

text \<open>
  \<^verbatim>\<open>nlargest(n, col)\<close> (with \<open>keep='first'\<close>). When \<open>n\<close> is at least the number of rows
  pandas returns \<^verbatim>\<open>sort_values(ascending=False).head(n)\<close>; otherwise it selects with a
  stable sort (\<open>kind="mergesort"\<close>) and appends the rows with NaN:
  \<^verbatim>\<open>
  if n <= 0: return self.obj[[]]
  if n >= len(self.obj):
      return self.obj.sort_values(ascending=ascending).head(n)
  ...
  inds = ns[arr[ns].argsort(kind="mergesort")]
  inds = inds[:n]
  return concat([dropped.iloc[inds], nan_index]).iloc[:findex]
  \<close>
\<close>

definition nlargest :: "argsorter \<Rightarrow> nat \<Rightarrow> string \<Rightarrow> dataframe \<Rightarrow> error + dataframe" where
  "nlargest argsort n name df =
     bind_res (numeric_column df name) (\<lambda>vs.
       if n = 0 then Inr (take_rows df [])
       else if length vs \<le> n then Inr (take_rows df (take n (sort_values_desc argsort vs)))
       else Inr (take_rows df (take n (argsort_desc vs))))"

section \<open>The pipeline\<close>

subsection \<open>filter\_by\_genre\_overlap\<close>

text \<open>
  \<^verbatim>\<open>any(band_genre in genres for band_genre in band_genres)\<close>: the target's cell is
  iterated (a list gives its tags, a string its characters), and each item is looked up
  in the candidate's cell (membership in a list, substring of a string) until one is
  found. A float or an integer on either side raises.
\<close>

primrec str_contains :: "string \<Rightarrow> string \<Rightarrow> bool" where
  "str_contains [] g = (g = [])"
| "str_contains (c # s) g = (take (length g) (c # s) = g \<or> str_contains s g)"

fun py_iter :: "cell \<Rightarrow> error + string list" where
  "py_iter (TagsC ts) = Inr ts"
| "py_iter (StrC s) = Inr (map (\<lambda>c. [c]) s)"
| "py_iter _ = Inl TypeError"

fun py_in :: "string \<Rightarrow> cell \<Rightarrow> error + bool" where
  "py_in g (TagsC ts) = Inr (g \<in> set ts)"
| "py_in g (StrC s) = Inr (str_contains s g)"
| "py_in g _ = Inl TypeError"

fun any_in :: "string list \<Rightarrow> cell \<Rightarrow> error + bool" where
  "any_in [] genres = Inr False"
| "any_in (g # gs) genres =
     bind_res (py_in g genres) (\<lambda>b. if b then Inr True else any_in gs genres)"

text \<open>
  \<^verbatim>\<open>
  def filter_by_genre_overlap(merged_df, band_id):
      band_info = merged_df[merged_df['Band ID'] == band_id]
      if band_info.empty:
          return pd.DataFrame()
      band_genres = band_info['Processed Genre'].values[0]
      overlap_bands_df = merged_df[merged_df['Processed Genre'].apply(
          lambda genres: any(band_genre in genres for band_genre in band_genres)
      )].reset_index(drop=True)
      return overlap_bands_df
  \<close>
\<close>

definition filter_by_genre_overlap :: "dataframe \<Rightarrow> int \<Rightarrow> error + dataframe" where
  "filter_by_genre_overlap merged_df band_id =
     bind_res (getitem merged_df ''Band ID'') (\<lambda>ids.
       let band_info = select_mask merged_df (map (\<lambda>c. c = IntC band_id) ids) in
       if df_empty band_info then Inr empty_frame
       else bind_res (getitem band_info ''Processed Genre'') (\<lambda>info_genres.
         case info_genres of
           [] \<Rightarrow> Inl IndexError
         | target_cell # _ \<Rightarrow>
             bind_res (getitem merged_df ''Processed Genre'') (\<lambda>all_genres.
               bind_res (sequence_res (map (\<lambda>genres.
                   bind_res (py_iter target_cell) (\<lambda>band_genres. any_in band_genres genres))
                 all_genres)) (\<lambda>keep.
                   Inr (reset_index (select_mask merged_df keep))))))"


subsection \<open>calculate\_similarity\<close>

text \<open>
  Lines 77 to 86 of the source call scikit-learn: \<^verbatim>\<open>TfidfVectorizer().fit_transform\<close>
  on the text column, \<^verbatim>\<open>TruncatedSVD(n_components=min(20, vocabulary))\<close> and
  \<^verbatim>\<open>cosine_similarity\<close>. The library is a parameter here: from the cells of the text
  column it gives the entries of the square cosine matrix (one row and one column per
  document), or the exception it raises (an empty vocabulary, a cell that is no string).
\<close>

type_synonym text_engine = "cell list \<Rightarrow> error + (nat \<Rightarrow> nat \<Rightarrow> fl)"

text \<open>
  \<^verbatim>\<open>
  def calculate_similarity(overlap_bands_df, band_id, column):
      if overlap_bands_df.empty:
          print("No similar bands found with overlapping genres.")
          return None
      tfidf_matrix = TfidfVectorizer().fit_transform(overlap_bands_df[column])
      ...
      cosine_sim_matrix = cosine_similarity(tfidf_matrix_reduced)
      band_idx = overlap_bands_df[overlap_bands_df['Band ID'] == band_id].index[0]
      similarity_scores = cosine_sim_matrix[band_idx]
      overlap_bands_df[f'{column}_Similarity'] = similarity_scores
      if column in overlap_bands_df.columns:
          overlap_bands_df.drop(columns=[column], inplace=True)
      return similarity_scores
  \<close>
  The frame is mutated in place, so the model returns it with the result. \<open>band_idx\<close> is
  the row label of the first row of the target, and numpy reads it as a position in the
  matrix: a negative one counts from the end, one out of range raises.
\<close>

definition calculate_similarity ::
  "text_engine \<Rightarrow> dataframe \<Rightarrow> int \<Rightarrow> string \<Rightarrow> error + (fl list option \<times> dataframe)" where
  "calculate_similarity engine overlap_bands_df band_id column =
     (if df_empty overlap_bands_df then Inr (None, overlap_bands_df)
      else bind_res (getitem overlap_bands_df column) (\<lambda>texts.
        bind_res (engine texts) (\<lambda>cosine_sim_matrix.
          bind_res (getitem overlap_bands_df ''Band ID'') (\<lambda>ids.
            case mask_positions (map (\<lambda>c. c = IntC band_id) ids) of
              [] \<Rightarrow> Inl IndexError
            | p # _ \<Rightarrow>
                let band_idx = index overlap_bands_df ! p;
                    n = int (length texts)
                in if band_idx < - n \<or> n \<le> band_idx then Inl IndexError
                   else
                     let r = nat (if band_idx < 0 then band_idx + n else band_idx);
                         similarity_scores = map (cosine_sim_matrix r) [0..<length texts]
                     in bind_res (setitem overlap_bands_df (column @ ''_Similarity'')
                                    (map NumC similarity_scores)) (\<lambda>df1.
                          bind_res (if column \<in> set (map fst (columns df1))
                                    then drop_columns df1 [column] else Inr df1) (\<lambda>df2.
                            Inr (Some similarity_scores, df2)))))))"

subsection \<open>get\_complete\_similar\_bands and aggregate\_similar\_bands\<close>

text \<open>
  The table \<open>similar_artists_df\<close>: one row per similarity edge, with its columns
  \<open>Band ID\<close>, \<open>Similar Artist ID\<close> and \<open>Score\<close>.
\<close>

type_synonym edge = "int \<times> int \<times> fl"

definition edge_band :: "edge \<Rightarrow> int" where
  "edge_band e = fst e"

definition edge_similar :: "edge \<Rightarrow> int" where
  "edge_similar e = fst (snd e)"

definition edge_score :: "edge \<Rightarrow> fl" where
  "edge_score e = snd (snd e)"

text \<open>
  \<^verbatim>\<open>
  def aggregate_similar_bands(filtered_df):
      aggregated_df = filtered_df.groupby('Similar Artist ID', as_index=False).agg({'Score': 'max'})
      return aggregated_df.sort_values(by='Score', ascending=False).reset_index(drop=True)
  \<close>
  \<open>groupby\<close> gives one row per key, keys ascending, with the maximum of the group
  (NaN skipped). The result is the list of (\<open>Similar Artist ID\<close>, \<open>Score\<close>) rows.
  pandas does not fix the order of rows of equal score under the default sort of
  \<open>sort_values\<close>; this table is written with them in key order, and the pipeline reads
  it by key only (line 138).
\<close>

definition aggregate_similar_bands :: "(int \<times> fl) list \<Rightarrow> (int \<times> fl) list" where
  "aggregate_similar_bands filtered_df =
     (let aggregated_df =
            map (\<lambda>k. (k, series_max (map snd (filter (\<lambda>r. fst r = k) filtered_df))))
                (sort (remdups (map fst filtered_df)))
      in map (\<lambda>p. aggregated_df ! p) (argsort_desc (map snd aggregated_df)))"

text \<open>
  \<^verbatim>\<open>
  def get_complete_similar_bands(band_id):
      filtered_similar_bands = similar_artists_df[
          (similar_artists_df['Band ID'] == band_id) | (similar_artists_df['Similar Artist ID'] == band_id)]
      bands_listing_original = similar_artists_df[similar_artists_df['Similar Artist ID'] == band_id]
      complete_bands = pd.concat([
          filtered_similar_bands[['Similar Artist ID', 'Score']],
          bands_listing_original[['Band ID', 'Score']].rename(columns={'Band ID': 'Similar Artist ID'})])
      return aggregate_similar_bands(complete_bands)
  \<close>
  The global \<open>similar_artists_df\<close> is the first argument.
\<close>

definition get_complete_similar_bands :: "edge list \<Rightarrow> int \<Rightarrow> (int \<times> fl) list" where
  "get_complete_similar_bands similar_artists_df band_id =
     (let filtered_similar_bands =
            filter (\<lambda>e. edge_band e = band_id \<or> edge_similar e = band_id) similar_artists_df;
          bands_listing_original =
            filter (\<lambda>e. edge_similar e = band_id) similar_artists_df;
          complete_bands =
            map (\<lambda>e. (edge_similar e, edge_score e)) filtered_similar_bands
            @ map (\<lambda>e. (edge_band e, edge_score e)) bands_listing_original
      in aggregate_similar_bands complete_bands)"

text \<open>
  Line 138:
  \<^verbatim>\<open>similar_bands_df.set_index('Similar Artist ID').reindex(overlap_bands_df['Band ID'], fill_value=0)['Score'].values\<close>.
  The keys of \<open>similar_bands_df\<close> are distinct after the \<open>groupby\<close>, so the reindex does
  not raise; a label that is no key gets the fill value 0.
\<close>

definition reindex_score :: "(int \<times> fl) list \<Rightarrow> cell \<Rightarrow> fl" where
  "reindex_score similar_bands_df c =
     (case c of
        IntC i \<Rightarrow> (case map_of similar_bands_df i of None \<Rightarrow> Fin 0 | Some s \<Rightarrow> s)
      | _ \<Rightarrow> Fin 0)"

subsection \<open>add\_geographic\_similarity\_to\_band\<close>

text \<open>
  Modelled from the spec: \<^verbatim>\<open>add_geographic_similarity_to_band\<close> of \<^verbatim>\<open>Cleancountry.py\<close>
  is not among the sources. The spec gives its contract as
  \<open>geoSimilarity(targetId, candidateIds) -> mapping(candidateId -> score)\<close>, with a missing
  score for a country that does not resolve; the pipeline reads the result from the column
  \<open>Country_Similarity\<close>. The mapping is the parameter \<open>geoSimilarity\<close>.
\<close>

type_synonym geo_provider = "int \<Rightarrow> cell list \<Rightarrow> cell \<Rightarrow> fl"

definition add_geographic_similarity_to_band ::
  "geo_provider \<Rightarrow> dataframe \<Rightarrow> int \<Rightarrow> error + dataframe" where
  "add_geographic_similarity_to_band geoSimilarity df band_id =
     bind_res (getitem df ''Band ID'') (\<lambda>ids.
       setitem df ''Country_Similarity'' (map (\<lambda>c. NumC (geoSimilarity band_id ids c)) ids))"

subsection \<open>get\_recommendations\<close>

text \<open>
  \<^verbatim>\<open>df[name] = normalize_score(df[name])\<close>, lines 143 to 146.
\<close>

definition normalize_column :: "dataframe \<Rightarrow> string \<Rightarrow> error + dataframe" where
  "normalize_column df name =
     bind_res (numeric_column df name) (\<lambda>vs. setitem df name (map NumC (normalize_score vs)))"

text \<open>
  Lines 148 to 153: the weighted sum, row by row, in the order the source adds.
\<close>

definition total_score :: "fl \<Rightarrow> fl \<Rightarrow> fl \<Rightarrow> fl \<Rightarrow> fl list \<Rightarrow> fl list \<Rightarrow> fl list \<Rightarrow> fl list \<Rightarrow> fl list" where
  "total_score genre_weight lyrical_weight similar_weight country_weight themes similar genre country =
     map (\<lambda>i. fadd (fadd (fadd (fmul lyrical_weight (themes ! i))
                                (fmul similar_weight (similar ! i)))
                          (fmul genre_weight (genre ! i)))
                    (fmul country_weight (country ! i)))
         [0..<length themes]"

text \<open>
  Lines 127 to 155 of \<^verbatim>\<open>get_recommendations\<close>: the candidate table with its
  \<open>Total_Score\<close> column, before the selection. \<open>merged_df\<close> is the value of
  \<^verbatim>\<open>preproc_data()\<close> (whose genre and country cleaning is not among the sources) and
  \<open>similar_artists_df\<close> the global table of edges.
\<close>

definition scored_candidates ::
  "text_engine \<Rightarrow> geo_provider \<Rightarrow> dataframe \<Rightarrow> edge list \<Rightarrow> int \<Rightarrow> fl \<Rightarrow> fl \<Rightarrow> fl \<Rightarrow> fl
     \<Rightarrow> error + dataframe" where
  "scored_candidates engine geoSimilarity merged_df similar_artists_df band_id
       genre_weight lyrical_weight similar_weight country_weight =
     (let similar_bands_df = get_complete_similar_bands similar_artists_df band_id in
      bind_res (filter_by_genre_overlap merged_df band_id) (\<lambda>df0.
      bind_res (drop_columns df0 [''Processed Genre'']) (\<lambda>df1.
      bind_res (calculate_similarity engine df1 band_id ''Genre'') (\<lambda>r2.
      bind_res (calculate_similarity engine (snd r2) band_id ''Themes:'') (\<lambda>r3.
      bind_res (getitem (snd r3) ''Band ID'') (\<lambda>ids.
      bind_res (setitem (snd r3) ''Similar_Band_Score''
                  (map (\<lambda>c. NumC (reindex_score similar_bands_df c)) ids)) (\<lambda>df4.
      bind_res (add_geographic_similarity_to_band geoSimilarity df4 band_id) (\<lambda>df5.
      bind_res (normalize_column df5 ''Themes:_Similarity'') (\<lambda>df6.
      bind_res (normalize_column df6 ''Genre_Similarity'') (\<lambda>df7.
      bind_res (normalize_column df7 ''Similar_Band_Score'') (\<lambda>df8.
      bind_res (normalize_column df8 ''Country_Similarity'') (\<lambda>df9.
      bind_res (numeric_column df9 ''Themes:_Similarity'') (\<lambda>themes.
      bind_res (numeric_column df9 ''Similar_Band_Score'') (\<lambda>similar.
      bind_res (numeric_column df9 ''Genre_Similarity'') (\<lambda>genre.
      bind_res (numeric_column df9 ''Country_Similarity'') (\<lambda>country.
      bind_res (setitem df9 ''Total_Score''
                  (map NumC (total_score genre_weight lyrical_weight similar_weight
                               country_weight themes similar genre country))) (\<lambda>df10.
      drop_columns df10 [''Themes:_Similarity'', ''Similar_Band_Score'',
                         ''Genre_Similarity'', ''Country_Similarity''])))))))))))))))))"

text \<open>
  Line 158:
  \<^verbatim>\<open>overlap_bands_df[overlap_bands_df["Band ID"] != band_id].nlargest(10, 'Total_Score')\<close>.
\<close>

definition select_top :: "argsorter \<Rightarrow> int \<Rightarrow> dataframe \<Rightarrow> error + dataframe" where
  "select_top argsort band_id overlap_bands_df =
     bind_res (getitem overlap_bands_df ''Band ID'') (\<lambda>ids.
       nlargest argsort 10 ''Total_Score''
         (select_mask overlap_bands_df (map (\<lambda>c. c \<noteq> IntC band_id) ids)))"

text \<open>
  \<^verbatim>\<open>get_recommendations\<close>, with the sort of numpy, the text similarity library and the
  geographic provider as its first three arguments.
\<close>

definition get_recommendations ::
  "argsorter \<Rightarrow> text_engine \<Rightarrow> geo_provider \<Rightarrow> dataframe \<Rightarrow> edge list \<Rightarrow> int
     \<Rightarrow> fl \<Rightarrow> fl \<Rightarrow> fl \<Rightarrow> fl \<Rightarrow> error + dataframe" where
  "get_recommendations argsort engine geoSimilarity merged_df similar_artists_df band_id
       genre_weight lyrical_weight similar_weight country_weight =
     bind_res (scored_candidates engine geoSimilarity merged_df similar_artists_df band_id
                 genre_weight lyrical_weight similar_weight country_weight)
              (select_top argsort band_id)"


subsection \<open>Example data\<close>

text \<open>
  A small record store on which the definitions are evaluated: four bands, three of them
  sharing the tag \<open>death metal\<close>; a text engine that scores equal texts 1 and different
  texts 0; a geographic score.
\<close>

definition example_engine :: text_engine where
  "example_engine texts = Inr (\<lambda>i j. if texts ! i = texts ! j then Fin 1 else Fin 0)"

definition example_geo :: geo_provider where
  "example_geo t ids c = (if c = IntC t then Fin 1 else if c = IntC 2 then Fin (1 / 2) else Fin 0)"

definition example_bands :: dataframe where
  "example_bands = \<lparr>index = [0, 1, 2, 3], columns = [
     (''Band ID'', [IntC 1, IntC 2, IntC 3, IntC 4]),
     (''Genre'', [StrC ''death metal'', StrC ''death doom'', StrC ''pop'', StrC ''death metal'']),
     (''Processed Genre'', [TagsC [''death metal''], TagsC [''death metal'', ''doom''],
                            TagsC [''pop''], TagsC [''death metal'']]),
     (''Themes:'', [StrC ''war'', StrC ''war'', StrC ''love'', StrC ''gore''])]\<rparr>"

text \<open>
  Two sorts that numpy's argsort may be: one that keeps equal values in their order (as
  a merge sort or an insertion sort does) and one that returns them in reverse order.
\<close>

fun asc_key :: "fl \<Rightarrow> int \<times> real" where
  "asc_key NInf = (- 1, 0)"
| "asc_key (Fin a) = (0, a)"
| "asc_key PInf = (1, 0)"
| "asc_key NaN = (2, 0)"

definition stable_argsort :: argsorter where
  "stable_argsort vs = sort_key (\<lambda>i. asc_key (vs ! i)) [0..<length vs]"

definition reversing_argsort :: argsorter where
  "reversing_argsort vs = sort_key (\<lambda>i. asc_key (vs ! i)) (rev [0..<length vs])"

text \<open>
  A store of twelve bands that all share one tag, with three similarity edges, and the
  ranking the pipeline returns for target 1 with all weights 1.
\<close>

definition example_large :: dataframe where
  "example_large = \<lparr>index = map int [0..<12], columns = [
     (''Band ID'', map IntC [1, 2, 3, 4, 5, 6, 7, 8, 9, 10, 11, 12]),
     (''Genre'', map StrC [''death metal'', ''death metal'', ''death metal'', ''death metal'',
                           ''death metal'', ''death metal'', ''doom'', ''doom'', ''doom'',
                           ''doom'', ''doom'', ''doom'']),
     (''Processed Genre'', replicate 12 (TagsC [''metal''])),
     (''Themes:'', map StrC [''war'', ''gore'', ''war'', ''gore'', ''war'', ''gore'', ''war'',
                             ''gore'', ''war'', ''gore'', ''war'', ''gore''])]\<rparr>"

definition example_edges :: "edge list" where
  "example_edges = [(1, 2, Fin (7 / 10)), (2, 1, Fin (9 / 10)), (5, 1, Fin (4 / 10))]"

definition example_top :: dataframe where
  "example_top = \<lparr>index = [1, 4, 2, 3, 5, 6, 8, 10, 7, 9],
        columns = [(''Band ID'', map IntC [2, 5, 3, 4, 6, 7, 9, 11, 8, 10]),
                   (''Total_Score'',
                    map (\<lambda>x. NumC (Fin x)) [5 / 2, 22 / 9, 2, 1, 1, 1, 1, 1, 0, 0])]\<rparr>"

text \<open>
  A store of five bands that share one tag, in which bands 3 and 4 differ from the
  target in genre and themes alike; a store that lists the target twice; a store whose
  target has no tag.
\<close>

definition example_ties :: dataframe where
  "example_ties = \<lparr>index = [0, 1, 2, 3, 4], columns = [
     (''Band ID'', map IntC [1, 2, 3, 4, 5]),
     (''Genre'', map StrC [''death metal'', ''doom'', ''doom'', ''doom'', ''death metal'']),
     (''Processed Genre'', replicate 5 (TagsC [''metal''])),
     (''Themes:'', map StrC [''war'', ''gore'', ''gore'', ''gore'', ''war''])]\<rparr>"

definition example_twice :: dataframe where
  "example_twice = \<lparr>index = [0, 1, 2, 3], columns = [
     (''Band ID'', map IntC [1, 1, 2, 3]),
     (''Genre'', map StrC [''death metal'', ''death metal'', ''doom'', ''doom'']),
     (''Processed Genre'', replicate 4 (TagsC [''metal''])),
     (''Themes:'', map StrC [''war'', ''war'', ''war'', ''gore''])]\<rparr>"

definition example_untagged :: dataframe where
  "example_untagged = \<lparr>index = [0, 1], columns = [
     (''Band ID'', [IntC 1, IntC 2]),
     (''Processed Genre'', [TagsC [], TagsC [''pop'']])]\<rparr>"


text \<open>A candidate table that already has a column named \<open>Genre_Similarity\<close>.\<close>

definition example_scored :: dataframe where
  "example_scored = \<lparr>index = [0, 1], columns = [
     (''Band ID'', [IntC 1, IntC 2]),
     (''Genre'', [StrC ''death metal'', StrC ''doom'']),
     (''Genre_Similarity'', [NumC (Fin 5), NumC (Fin 6)])]\<rparr>"

subsection \<open>Notions of the specification\<close>

text \<open>
  The scores of the similarity edges between a target \<open>t\<close> and a counterpart \<open>x\<close>, in
  either direction: first the edges from \<open>t\<close> to \<open>x\<close>, then those from \<open>x\<close> to \<open>t\<close>.
  This follows the specification's words ("edges incident to the target in either
  direction, as undirected pairs"), to be compared with the code.
\<close>

definition scores_between :: "edge list \<Rightarrow> int \<Rightarrow> int \<Rightarrow> fl list" where
  "scores_between edges t x =
     map edge_score (filter (\<lambda>e. edge_band e = t \<and> edge_similar e = x) edges)
     @ map edge_score (filter (\<lambda>e. edge_band e = x \<and> edge_similar e = t) edges)"

text \<open>
  The scores that \<open>complete_bands\<close> of \<^verbatim>\<open>get_complete_similar_bands\<close> holds under the
  key \<open>x\<close>, in its row order: read off the two frames the code concatenates.
\<close>

definition complete_entries :: "edge list \<Rightarrow> int \<Rightarrow> int \<Rightarrow> fl list" where
  "complete_entries edges t x =
     map edge_score
       (filter (\<lambda>e. (edge_band e = t \<or> edge_similar e = t) \<and> edge_similar e = x) edges)
     @ map edge_score (filter (\<lambda>e. edge_similar e = t \<and> edge_band e = x) edges)"

text \<open>
  The ranking the specification asks of the final selection. \<open>score_gt a b\<close>: the score
  \<open>a\<close> ranks strictly above \<open>b\<close> (a NaN ranks below every number). Row \<open>i\<close> ranks
  before row \<open>j\<close> when its Total\_Score is larger, or equal with \<open>i\<close> the earlier row
  (the stable tie-break). \<open>other_rows\<close> are the positions of the rows that are not the
  target's. A list of rows is the top ranking of size \<open>k\<close> among the eligible rows when
  it is in rank order, holds \<open>min k\<close> of them, and every eligible row left out ranks
  after every row taken.
\<close>

definition score_gt :: "fl \<Rightarrow> fl \<Rightarrow> bool" where
  "score_gt a b = (a \<noteq> NaN \<and> (b = NaN \<or> (fle b a \<and> a \<noteq> b)))"

definition ranks_before :: "fl list \<Rightarrow> nat \<Rightarrow> nat \<Rightarrow> bool" where
  "ranks_before totals i j =
     (score_gt (totals ! i) (totals ! j) \<or> (totals ! i = totals ! j \<and> i < j))"

definition other_rows :: "int \<Rightarrow> cell list \<Rightarrow> nat list" where
  "other_rows band_id ids = filter (\<lambda>i. ids ! i \<noteq> IntC band_id) [0..<length ids]"

definition is_top_ranking :: "nat \<Rightarrow> fl list \<Rightarrow> nat list \<Rightarrow> nat list \<Rightarrow> bool" where
  "is_top_ranking k totals eligible ps =
     (sorted_wrt (ranks_before totals) ps
      \<and> set ps \<subseteq> set eligible
      \<and> length ps = min k (length eligible)
      \<and> (\<forall>i\<in>set ps. \<forall>j\<in>set eligible - set ps. ranks_before totals i j))"

text \<open>
  What is left of that ranking when equal scores may come in any order: the rows taken
  are distinct eligible rows, \<open>min k\<close> of them, no row is followed by a row of larger
  score, and no eligible row left out has a larger score than a row taken.
\<close>

definition is_top_selection :: "nat \<Rightarrow> fl list \<Rightarrow> nat list \<Rightarrow> nat list \<Rightarrow> bool" where
  "is_top_selection k totals eligible ps =
     (distinct ps
      \<and> set ps \<subseteq> set eligible
      \<and> length ps = min k (length eligible)
      \<and> sorted_wrt (\<lambda>i j. \<not> score_gt (totals ! j) (totals ! i)) ps
      \<and> (\<forall>i\<in>set ps. \<forall>j\<in>set eligible - set ps. \<not> score_gt (totals ! j) (totals ! i)))"

text \<open>
  One step of the pipeline from a frame to the next, seen from a column \<open>name\<close> it does
  not touch: the frame stays well formed, keeps its row labels and that column.
\<close>

definition frame_step :: "string \<Rightarrow> dataframe \<Rightarrow> dataframe \<Rightarrow> bool" where
  "frame_step name d d' =
     (wf_df d' \<and> index d' = index d \<and> getitem d' name = getitem d name)"

section \<open>Normalization\<close>

subsection \<open>Overflow\<close>

lemma overflow_bound_large: "2 ^ 64 < overflow_bound"
proof -
  have n: "(1024::nat) = 970 + 54" by simp
  have e: "(2::real) ^ 1024 = 2 ^ 970 * 2 ^ 54"
    by (simp only: n power_add)
  have b: "overflow_bound = 2 ^ 970 * (2 ^ 54 - 1)"
    unfolding overflow_bound_def e by (simp only: right_diff_distrib mult_1_right)
  have A: "(2::real) ^ 64 \<le> 2 ^ 970" by (rule power_increasing) simp_all
  have B: "(1::real) < 2 ^ 54 - 1" by simp
  have C: "(0::real) < 2 ^ 970" by (rule zero_less_power) simp
  have "(2::real) ^ 970 * 1 < 2 ^ 970 * (2 ^ 54 - 1)"
    using B C by (rule mult_strict_left_mono)
  then have "(2::real) ^ 970 < overflow_bound" by (simp only: mult_1_right b)
  with A show ?thesis by (rule le_less_trans)
qed

lemma overflow_bound_gt: "18446744073709551616 < overflow_bound"
  using overflow_bound_large by simp

text \<open>
  For evaluation: a result within \<open>\<plusminus> 2^64\<close> is finite, without a look at the bound.
\<close>

lemma round_overflow_code [code]:
  "round_overflow r =
     (if - 18446744073709551616 \<le> r \<and> r \<le> 18446744073709551616 then Fin r
      else if overflow_bound \<le> r then PInf
      else if r \<le> - overflow_bound then NInf else Fin r)"
  using overflow_bound_gt by (simp add: round_overflow_def)

lemma round_overflow_Fin:
  "- overflow_bound < r \<Longrightarrow> r < overflow_bound \<Longrightarrow> round_overflow r = Fin r"
  by (simp add: round_overflow_def)

lemma round_overflow_unit: "0 \<le> r \<Longrightarrow> r \<le> 1 \<Longrightarrow> round_overflow r = Fin r"
  using overflow_bound_gt by (intro round_overflow_Fin) simp_all


lemma fsub_Fin: "fsub (Fin a) (Fin b) = round_overflow (a - b)"
  by (simp add: fsub_def)


lemma fdiv_zero_zero: "fdiv (Fin 0) (Fin 0) = NaN"
  by (simp add: signed_inf_def)

subsection \<open>Minimum and maximum of a series of numbers\<close>

lemma dropna_map_Fin: "dropna (map Fin rs) = map Fin rs"
  by (induction rs) (simp_all add: dropna_def)

lemma foldl_fmin2_Fin: "foldl fmin2 (Fin a) (map Fin rs) = Fin (Min (set (a # rs)))"
proof (induction rs arbitrary: a)
  case Nil
  then show ?case by simp
next
  case (Cons r rs)
  have "fmin2 (Fin a) (Fin r) = Fin (min a r)"
    by (simp add: fmin2_def min_def)
  moreover have "Min (set (min a r # rs)) = Min (set (a # r # rs))"
    by (cases "rs = []") (simp_all add: min.assoc)
  ultimately show ?case using Cons.IH [of "min a r"] by simp
qed

lemma foldl_fmax2_Fin: "foldl fmax2 (Fin a) (map Fin rs) = Fin (Max (set (a # rs)))"
proof (induction rs arbitrary: a)
  case Nil
  then show ?case by simp
next
  case (Cons r rs)
  have "fmax2 (Fin a) (Fin r) = Fin (max a r)"
    by (simp add: fmax2_def max_def)
  moreover have "Max (set (max a r # rs)) = Max (set (a # r # rs))"
    by (cases "rs = []") (simp_all add: max.assoc)
  ultimately show ?case using Cons.IH [of "max a r"] by simp
qed

lemma series_min_Fin: "rs \<noteq> [] \<Longrightarrow> series_min (map Fin rs) = Fin (Min (set rs))"
proof (cases rs)
  case Nil
  then show "rs \<noteq> [] \<Longrightarrow> ?thesis" by simp
next
  case (Cons a as)
  have "dropna (map Fin rs) = Fin a # map Fin as"
    using Cons dropna_map_Fin [of rs] by simp
  then show ?thesis using Cons foldl_fmin2_Fin [of a as]
    by (simp add: series_min_def)
qed

lemma series_max_Fin: "rs \<noteq> [] \<Longrightarrow> series_max (map Fin rs) = Fin (Max (set rs))"
proof (cases rs)
  case Nil
  then show "rs \<noteq> [] \<Longrightarrow> ?thesis" by simp
next
  case (Cons a as)
  have "dropna (map Fin rs) = Fin a # map Fin as"
    using Cons dropna_map_Fin [of rs] by simp
  then show ?thesis using Cons foldl_fmax2_Fin [of a as]
    by (simp add: series_max_def)
qed


subsection \<open>The degenerate signal\<close>

lemma normalize_score_const:
  assumes "rs \<noteq> []" and "Min (set rs) = Max (set rs)"
  shows "normalize_score (map Fin rs) = map (\<lambda>_. NaN) rs"
proof -
  define m where "m = Min (set rs)"
  have M: "Max (set rs) = m" using assms(2) by (simp add: m_def)
  have eq: "\<forall>r\<in>set rs. r = m"
  proof
    fix r assume "r \<in> set rs"
    then have "Min (set rs) \<le> r" "r \<le> Max (set rs)" by simp_all
    with assms(2) show "r = m" by (simp add: m_def)
  qed
  have "round_overflow 0 = Fin 0" by (rule round_overflow_unit) simp_all
  then have z: "fdiv (fsub (Fin m) (Fin m)) (fsub (Fin m) (Fin m)) = NaN"
    by (simp only: fsub_Fin diff_self fdiv_zero_zero)
  have "\<forall>r\<in>set rs. fdiv (fsub (Fin r) (Fin m)) (fsub (Fin m) (Fin m)) = NaN"
  proof
    fix r assume "r \<in> set rs"
    with eq have "r = m" by (rule bspec)
    then show "fdiv (fsub (Fin r) (Fin m)) (fsub (Fin m) (Fin m)) = NaN"
      using z by (simp only:)
  qed
  then show ?thesis
    unfolding normalize_score_def series_min_Fin [OF assms(1)] series_max_Fin [OF assms(1)]
      M m_def [symmetric]
    by simp
qed

subsection \<open>The range of a normalized signal\<close>







text \<open>
  Claim C1. A signal whose values are all equal must be normalized to a constant 0, and
  a candidate set of size 1 must get a Total\_Score without a division fault. The code
  has no special case. On the example store, with the one similarity edge (7, 8, 0.5)
  that touches no candidate: the single candidate of target 3 gets the Total\_Score NaN
  (no exception is raised), and for target 1 the crowd signal is 0 for every candidate,
  so both ranked candidates get the Total\_Score NaN, with either of the two example
  sorts.
\<close>

theorem degenerate_signal_total_is_nan:
  "normalize_score [Fin 5] = [NaN]
   \<and> normalize_score [Fin 0, Fin 0, Fin 0] = [NaN, NaN, NaN]
   \<and> scored_candidates example_engine example_geo example_bands [(7, 8, Fin (1 / 2))] 3
         (Fin 1) (Fin 1) (Fin 1) (Fin 1)
       = Inr \<lparr>index = [0],
              columns = [(''Band ID'', [IntC 3]), (''Total_Score'', [NumC NaN])]\<rparr>
   \<and> get_recommendations stable_argsort example_engine example_geo example_bands [(7, 8, Fin (1 / 2))] 1
         (Fin 1) (Fin 1) (Fin 1) (Fin 1)
       = Inr \<lparr>index = [1, 2],
              columns = [(''Band ID'', [IntC 2, IntC 4]),
                         (''Total_Score'', [NumC NaN, NumC NaN])]\<rparr>
   \<and> get_recommendations reversing_argsort example_engine example_geo example_bands
         [(7, 8, Fin (1 / 2))] 1 (Fin 1) (Fin 1) (Fin 1) (Fin 1)
       = Inr \<lparr>index = [1, 2],
              columns = [(''Band ID'', [IntC 2, IntC 4]),
                         (''Total_Score'', [NumC NaN, NumC NaN])]\<rparr>"
  by code_simp

section \<open>The crowd similarity aggregator\<close>

lemma set_argsort_desc: "set (argsort_desc vs) = {0..<length vs}"
  by (auto simp: argsort_desc_def)

lemma distinct_argsort_desc: "distinct (argsort_desc vs)"
  by (auto simp: argsort_desc_def)

lemma length_argsort_desc: "length (argsort_desc vs) = length vs"
proof -
  have "length (argsort_desc vs) = card (set (argsort_desc vs))"
    using distinct_argsort_desc by (simp add: distinct_card)
  then show ?thesis by (simp add: set_argsort_desc)
qed

lemma set_permute: 
  assumes "set ps = {0..<length xs}"
  shows "set (map (\<lambda>p. xs ! p) ps) = set xs"
proof -
  have "set (map (\<lambda>p. xs ! p) ps) = (\<lambda>p. xs ! p) ` {0..<length xs}"
    using assms by simp
  also have "\<dots> = set xs"
    by (auto simp: in_set_conv_nth)
  finally show ?thesis .
qed

lemma distinct_keys_permute:
  assumes "distinct (map fst xs)" and "distinct ps" and "set ps \<subseteq> {0..<length xs}"
  shows "distinct (map fst (map (\<lambda>p. xs ! p) ps))"
proof -
  have "inj_on (\<lambda>p. fst (xs ! p)) (set ps)"
  proof (rule inj_onI)
    fix p q assume "p \<in> set ps" "q \<in> set ps" "fst (xs ! p) = fst (xs ! q)"
    then have pq: "p < length xs" "q < length xs" and "fst (xs ! p) = fst (xs ! q)"
      using assms(3) by auto
    then have "map fst xs ! p = map fst xs ! q" by simp
    then show "p = q" using assms(1) pq nth_eq_iff_index_eq [of "map fst xs" p q] by simp
  qed
  then show ?thesis using assms(2) by (simp add: distinct_map comp_def)
qed

lemma map_of_permute:
  assumes "distinct (map fst xs)" and "distinct ps" and "set ps = {0..<length xs}"
  shows "map_of (map (\<lambda>p. xs ! p) ps) = map_of xs"
proof -
  have "distinct (map fst (map (\<lambda>p. xs ! p) ps))"
    using distinct_keys_permute assms by blast
  moreover have "set (map (\<lambda>p. xs ! p) ps) = set xs"
    using set_permute assms(3) by blast
  ultimately show ?thesis using assms(1) by (simp add: map_of_inject_set)
qed


lemma aggregate_lookup:
  "map_of (aggregate_similar_bands rs) x =
     (if x \<in> fst ` set rs then Some (series_max (map snd (filter (\<lambda>r. fst r = x) rs)))
      else None)"
proof -
  define agg where "agg = map (\<lambda>k. (k, series_max (map snd (filter (\<lambda>r. fst r = k) rs))))
                (sort (remdups (map fst rs)))"
  have d: "distinct (map fst agg)" by (simp add: agg_def comp_def)
  have "map_of (aggregate_similar_bands rs) = map_of agg"
    unfolding aggregate_similar_bands_def Let_def agg_def [symmetric]
    by (rule map_of_permute [OF d]) (simp_all add: distinct_argsort_desc set_argsort_desc)
  moreover have "map_of agg x =
     (if x \<in> fst ` set rs then Some (series_max (map snd (filter (\<lambda>r. fst r = x) rs)))
      else None)"
    by (simp add: agg_def map_of_map_restrict restrict_map_def)
  ultimately show ?thesis by simp
qed

lemma complete_lookup:
  "map_of (get_complete_similar_bands edges t) x =
     (if complete_entries edges t x = [] then None
      else Some (series_max (complete_entries edges t x)))"
proof -
  define cb where "cb = map (\<lambda>e. (edge_similar e, edge_score e))
        (filter (\<lambda>e. edge_band e = t \<or> edge_similar e = t) edges)
      @ map (\<lambda>e. (edge_band e, edge_score e)) (filter (\<lambda>e. edge_similar e = t) edges)"
  have 1: "get_complete_similar_bands edges t = aggregate_similar_bands cb"
    by (simp add: get_complete_similar_bands_def cb_def Let_def)
  have 2: "map snd (filter (\<lambda>r. fst r = x) cb) = complete_entries edges t x"
    by (simp add: cb_def complete_entries_def filter_map comp_def conj_commute)
  have 3: "x \<in> fst ` set cb \<longleftrightarrow> complete_entries edges t x \<noteq> []"
  proof -
    have "x \<in> fst ` set cb \<longleftrightarrow> filter (\<lambda>r. fst r = x) cb \<noteq> []"
      by (auto simp: filter_empty_conv)
    also have "\<dots> \<longleftrightarrow> map snd (filter (\<lambda>r. fst r = x) cb) \<noteq> []" by simp
    finally show ?thesis using 2 by simp
  qed
  show ?thesis unfolding 1 aggregate_lookup 2 3 by simp
qed

lemma complete_entries_other:
  "x \<noteq> t \<Longrightarrow> complete_entries edges t x = scores_between edges t x"
proof -
  assume "x \<noteq> t"
  then have "(\<lambda>e. (edge_band e = t \<or> edge_similar e = t) \<and> edge_similar e = x)
     = (\<lambda>e. edge_band e = t \<and> edge_similar e = x)" by auto
  moreover have "(\<lambda>e. edge_similar e = t \<and> edge_band e = x) = (\<lambda>e. edge_band e = x \<and> edge_similar e = t)"
    by auto
  ultimately show ?thesis by (simp add: complete_entries_def scores_between_def)
qed



text \<open>
  Claim C9. Whenever the edges contain one whose second endpoint (\<open>Similar Artist ID\<close>)
  is the target, the aggregator's output has an entry keyed by the target itself, next
  to the entry of the edge's first endpoint; the aggregator does not remove it, and the
  join of line 138 gives it to the target's own row. (That row leaves the result in the
  final selection only, as the last part of the example shows.)
\<close>

theorem self_entry_for_incoming_edge:
  assumes "e \<in> set edges" and "edge_similar e = band_id"
  shows "band_id \<in> fst ` set (get_complete_similar_bands edges band_id)
       \<and> edge_band e \<in> fst ` set (get_complete_similar_bands edges band_id)
       \<and> map_of (get_complete_similar_bands edges band_id) band_id
             = Some (series_max (complete_entries edges band_id band_id))
       \<and> reindex_score (get_complete_similar_bands edges band_id) (IntC band_id)
             = series_max (complete_entries edges band_id band_id)"
proof -
  have "e \<in> set (filter (\<lambda>e. (edge_band e = band_id \<or> edge_similar e = band_id)
                            \<and> edge_similar e = band_id) edges)"
    using assms by simp
  then have ne: "complete_entries edges band_id band_id \<noteq> []"
    unfolding complete_entries_def by (auto simp del: set_filter)
  then have 1: "map_of (get_complete_similar_bands edges band_id) band_id
             = Some (series_max (complete_entries edges band_id band_id))"
    by (simp add: complete_lookup)
  have "e \<in> set (filter (\<lambda>e'. edge_similar e' = band_id \<and> edge_band e' = edge_band e) edges)"
    using assms by simp
  then have "complete_entries edges band_id (edge_band e) \<noteq> []"
    unfolding complete_entries_def by (auto simp del: set_filter)
  then have 2: "map_of (get_complete_similar_bands edges band_id) (edge_band e) \<noteq> None"
    by (simp add: complete_lookup)
  have 3: "reindex_score (get_complete_similar_bands edges band_id) (IntC band_id)
             = series_max (complete_entries edges band_id band_id)"
    using 1 by (simp add: reindex_score_def)
  have "map_of (get_complete_similar_bands edges band_id) band_id \<noteq> None"
    using 1 by simp
  then have "band_id \<in> fst ` set (get_complete_similar_bands edges band_id)"
    by (simp add: map_of_eq_None_iff)
  moreover have "edge_band e \<in> fst ` set (get_complete_similar_bands edges band_id)"
    using 2 by (simp add: map_of_eq_None_iff)
  ultimately show ?thesis using 1 3 by blast
qed

theorem self_entry_for_incoming_edge_witness:
  "(2, 1, Fin (9 / 10)) \<in> set [(2 :: int, 1 :: int, Fin (9 / 10))]
   \<and> edge_similar (2, 1, Fin (9 / 10)) = 1
   \<and> 1 \<in> fst ` set (get_complete_similar_bands [(2, 1, Fin (9 / 10))] 1)
   \<and> get_complete_similar_bands [(2, 1, Fin (9 / 10))] 1 = [(1, Fin (9 / 10)), (2, Fin (9 / 10))]
   \<and> reindex_score (get_complete_similar_bands [(2, 1, Fin (9 / 10))] 1) (IntC 1) = Fin (9 / 10)
   \<and> get_recommendations stable_argsort example_engine example_geo example_bands [(2, 1, Fin (9 / 10))] 1
         (Fin 1) (Fin 1) (Fin 1) (Fin 1)
       = Inr \<lparr>index = [1, 2],
              columns = [(''Band ID'', [IntC 2, IntC 4]),
                         (''Total_Score'', [NumC (Fin (5 / 2)), NumC (Fin 1)])]\<rparr>"
proof -
  have h1: "(2, 1, Fin (9 / 10)) \<in> set [(2 :: int, 1 :: int, Fin (9 / 10))]" by simp
  have h2: "edge_similar (2, 1, Fin (9 / 10)) = 1" by (simp add: edge_similar_def)
  have e: "get_complete_similar_bands [(2, 1, Fin (9 / 10))] 1 = [(1, Fin (9 / 10)), (2, Fin (9 / 10))]"
    by code_simp
  have c: "series_max (complete_entries [(2, 1, Fin (9 / 10))] 1 1) = Fin (9 / 10)"
    by code_simp
  have g: "get_recommendations stable_argsort example_engine example_geo example_bands [(2, 1, Fin (9 / 10))] 1
         (Fin 1) (Fin 1) (Fin 1) (Fin 1)
       = Inr \<lparr>index = [1, 2],
              columns = [(''Band ID'', [IntC 2, IntC 4]),
                         (''Total_Score'', [NumC (Fin (5 / 2)), NumC (Fin 1)])]\<rparr>"
    by code_simp
  from self_entry_for_incoming_edge [OF h1 h2]
  have "1 \<in> fst ` set (get_complete_similar_bands [(2, 1, Fin (9 / 10))] 1)"
    and "reindex_score (get_complete_similar_bands [(2, 1, Fin (9 / 10))] 1) (IntC 1) = Fin (9 / 10)"
    unfolding c by simp_all
  with h1 h2 e g show ?thesis by blast
qed

text \<open>
  Claim C8, as stated: a candidate with no similarity edge to the target is joined with
  the score 0. The target is itself a row of the candidate table; with the single edge
  (2, 1, 0.9) and target 1 there is no edge between the target and itself, and yet the
  target's row is joined with 0.9, the self entry of the aggregator.
\<close>

theorem crowd_score_of_target_row:
  "scores_between [(2, 1, Fin (9 / 10))] 1 1 = []
   \<and> reindex_score (get_complete_similar_bands [(2, 1, Fin (9 / 10))] 1) (IntC 1) = Fin (9 / 10)
   \<and> Fin (9 / 10) \<noteq> Fin 0"
  by code_simp

text \<open>
  Claim C8, amended. For every candidate other than the target: with no similarity edge
  between it and the target in either direction, the score joined into the candidate
  table (line 138) is 0; otherwise it is the maximum of the scores of those edges.
\<close>

theorem crowd_score_of_candidate:
  assumes "c \<noteq> band_id"
  shows "reindex_score (get_complete_similar_bands edges band_id) (IntC c) =
           (if scores_between edges band_id c = [] then Fin 0
            else series_max (scores_between edges band_id c))"
  using assms complete_lookup [of edges band_id c] complete_entries_other [of c band_id edges]
  by (simp add: reindex_score_def)

theorem crowd_score_of_candidate_witness:
  "(4 :: int) \<noteq> 1 \<and> (2 :: int) \<noteq> 1
   \<and> reindex_score (get_complete_similar_bands [(1, 2, Fin (7 / 10)), (2, 1, Fin (9 / 10))] 1)
        (IntC 4) = Fin 0
   \<and> reindex_score (get_complete_similar_bands [(1, 2, Fin (7 / 10)), (2, 1, Fin (9 / 10))] 1)
        (IntC 2) = Fin (9 / 10)"
proof -
  have h4: "(4 :: int) \<noteq> 1" and h2: "(2 :: int) \<noteq> 1" by simp_all
  have s4: "scores_between [(1, 2, Fin (7 / 10)), (2, 1, Fin (9 / 10))] 1 4 = []"
    by code_simp
  have s2: "scores_between [(1, 2, Fin (7 / 10)), (2, 1, Fin (9 / 10))] 1 2
             = [Fin (7 / 10), Fin (9 / 10)]"
    by code_simp
  have m: "series_max [Fin (7 / 10), Fin (9 / 10)] = Fin (9 / 10)"
    by code_simp
  from crowd_score_of_candidate [OF h4, of "[(1, 2, Fin (7 / 10)), (2, 1, Fin (9 / 10))]"]
    crowd_score_of_candidate [OF h2, of "[(1, 2, Fin (7 / 10)), (2, 1, Fin (9 / 10))]"]
  show ?thesis unfolding s4 s2 m by simp
qed


section \<open>The genre overlap filter\<close>

lemma bind_res_Inr [simp]: "bind_res (Inr x) f = f x"
  by (simp add: bind_res_def)

lemma bind_res_Inl [simp]: "bind_res (Inl e) f = Inl e"
  by (simp add: bind_res_def)

lemma sequence_res_Inr: "sequence_res (map (\<lambda>x. Inr (f x)) xs) = Inr (map f xs)"
  by (induction xs) simp_all

lemma any_in_tags: "any_in ts (TagsC us) = Inr (set ts \<inter> set us \<noteq> {})"
  by (induction ts) auto

lemma map_of_take_rows:
  "map_of (columns (take_rows df ps)) name
     = map_option (\<lambda>vs. map (\<lambda>p. vs ! p) ps) (map_of (columns df) name)"
proof -
  have "columns (take_rows df ps) = map (\<lambda>(c, vs). (c, map (\<lambda>p. vs ! p) ps)) (columns df)"
    by (simp add: take_rows_def case_prod_beta)
  then show ?thesis by (simp add: map_of_map)
qed

lemma getitem_take_rows:
  "getitem df name = Inr vs \<Longrightarrow> getitem (take_rows df ps) name = Inr (map (\<lambda>p. vs ! p) ps)"
  by (auto simp: getitem_def map_of_take_rows split: option.splits)

lemma getitem_columns_nonempty: "getitem df name = Inr vs \<Longrightarrow> columns df \<noteq> []"
  by (auto simp: getitem_def)

lemma getitem_length:
  "wf_df df \<Longrightarrow> getitem df name = Inr vs \<Longrightarrow> length vs = length (index df)"
  by (auto simp: wf_df_def getitem_def list_all_iff split: option.splits dest!: map_of_SomeD)

lemma mask_positions_first:
  assumes "p < length keep" and "keep ! p" and "\<forall>q<p. \<not> keep ! q"
  shows "mask_positions keep = p # filter (\<lambda>i. keep ! i) [Suc p..<length keep]"
proof -
  have "[0..<p + (length keep - p)] = [0..<p] @ [p..<p + (length keep - p)]"
    by (rule upt_add_eq_append) simp
  moreover have "p + (length keep - p) = length keep" using assms(1) by simp
  ultimately have "[0..<length keep] = [0..<p] @ [p..<length keep]" by simp
  then have "[0..<length keep] = [0..<p] @ p # [Suc p..<length keep]"
    using assms(1) upt_conv_Cons [of p "length keep"] by simp
  moreover have "filter (\<lambda>i. keep ! i) [0..<p] = []"
    using assms(3) by (simp add: filter_empty_conv)
  ultimately show ?thesis using assms(2) by (simp add: mask_positions_def)
qed

lemma mask_positions_none:
  assumes "\<forall>b\<in>set keep. \<not> b"
  shows "mask_positions keep = []"
proof -
  have "\<forall>i\<in>set [0..<length keep]. \<not> keep ! i"
  proof
    fix i assume "i \<in> set [0..<length keep]"
    then have "i < length keep" by simp
    then have "keep ! i \<in> set keep" by (rule nth_mem)
    with assms show "\<not> keep ! i" by blast
  qed
  then have "filter (\<lambda>i. keep ! i) [0..<length keep] = []"
    by (simp only: filter_empty_conv) 
  then show ?thesis by (simp only: mask_positions_def)
qed

lemma rows_take_rows: "rows (reset_index (take_rows df ps)) = map (row_at df) ps"
proof -
  have "rows (reset_index (take_rows df ps))
          = map (\<lambda>k. row_at (take_rows df ps) k) [0..<length ps]"
    by (simp add: rows_def reset_index_def row_at_def take_rows_def)
  also have "\<dots> = map (\<lambda>k. row_at df (ps ! k)) [0..<length ps]"
    by (simp add: row_at_def take_rows_def comp_def)
  also have "\<dots> = map (row_at df) (map (\<lambda>k. ps ! k) [0..<length ps])"
    by (simp only: map_map comp_def)
  also have "\<dots> = map (row_at df) ps"
    by (simp only: map_nth)
  finally show ?thesis .
qed

lemma filter_absent:
  assumes "getitem merged_df ''Band ID'' = Inr ids" and "IntC band_id \<notin> set ids"
  shows "filter_by_genre_overlap merged_df band_id = Inr empty_frame"
proof -
  have "mask_positions (map (\<lambda>c. c = IntC band_id) ids) = []"
  proof (rule mask_positions_none)
    show "\<forall>b\<in>set (map (\<lambda>c. c = IntC band_id) ids). \<not> b"
      using assms(2) by auto
  qed
  then have "df_empty (select_mask merged_df (map (\<lambda>c. c = IntC band_id) ids))"
    by (simp add: select_mask_def take_rows_def df_empty_def)
  then show ?thesis using assms(1) by (simp add: filter_by_genre_overlap_def Let_def)
qed

lemma filter_present:
  assumes wf: "wf_df merged_df"
    and ids: "getitem merged_df ''Band ID'' = Inr ids"
    and gs: "getitem merged_df ''Processed Genre'' = Inr (map TagsC tagss)"
    and p: "p < length ids" "ids ! p = IntC band_id" "\<forall>q<p. ids ! q \<noteq> IntC band_id"
  shows "filter_by_genre_overlap merged_df band_id
           = Inr (reset_index (select_mask merged_df
                    (map (\<lambda>ts. set (tagss ! p) \<inter> set ts \<noteq> {}) tagss)))"
proof -
  define keep0 where "keep0 = map (\<lambda>c. c = IntC band_id) ids"
  have len: "length tagss = length ids"
    using getitem_length [OF wf ids] getitem_length [OF wf gs] by simp
  have mp: "mask_positions keep0 = p # filter (\<lambda>i. keep0 ! i) [Suc p..<length keep0]"
    by (rule mask_positions_first) (use p in \<open>simp_all add: keep0_def\<close>)
  have ne: "\<not> df_empty (select_mask merged_df keep0)"
    using mp getitem_columns_nonempty [OF ids]
    by (simp add: select_mask_def take_rows_def df_empty_def)
  have info: "getitem (select_mask merged_df keep0) ''Processed Genre''
      = Inr (TagsC (tagss ! p) # map (\<lambda>q. map TagsC tagss ! q) (filter (\<lambda>i. keep0 ! i) [Suc p..<length keep0]))"
    unfolding select_mask_def getitem_take_rows [OF gs] mp using p(1) len by simp
  have seq: "sequence_res (map (\<lambda>genres. bind_res (py_iter (TagsC (tagss ! p)))
                   (\<lambda>band_genres. any_in band_genres genres)) (map TagsC tagss))
       = Inr (map (\<lambda>ts. set (tagss ! p) \<inter> set ts \<noteq> {}) tagss)"
    using sequence_res_Inr [of "\<lambda>ts. set (tagss ! p) \<inter> set ts \<noteq> {}" tagss]
    by (simp add: comp_def any_in_tags)
  show ?thesis
    unfolding filter_by_genre_overlap_def
    by (simp only: ids bind_res_Inr Let_def keep0_def [symmetric] ne if_False info
        list.case gs seq)
qed


lemma mask_positions_map:
  "mask_positions (map f xs) = filter (\<lambda>i. f (xs ! i)) [0..<length xs]"
  unfolding mask_positions_def by (rule filter_cong) simp_all

text \<open>
  Claim C4, as stated: the target itself is among the rows returned. A target whose
  tag list is empty shares no tag with any band, itself included: the filter returns a
  table without rows.
\<close>

theorem filter_by_genre_overlap_untagged_target:
  "wf_df example_untagged
   \<and> getitem example_untagged ''Band ID'' = Inr [IntC 1, IntC 2]
   \<and> filter_by_genre_overlap example_untagged 1
       = Inr \<lparr>index = [], columns = [(''Band ID'', []), (''Processed Genre'', [])]\<rparr>
   \<and> rows \<lparr>index = [], columns = [(''Band ID'', []), (''Processed Genre'', [])]\<rparr> = []"
proof -
  have 1: "wf_df example_untagged" by code_simp
  have 2: "getitem example_untagged ''Band ID'' = Inr [IntC 1, IntC 2]" by code_simp
  have 3: "filter_by_genre_overlap example_untagged 1
       = Inr \<lparr>index = [], columns = [(''Band ID'', []), (''Processed Genre'', [])]\<rparr>"
    by code_simp
  have 4: "rows \<lparr>index = [], columns = [(''Band ID'', []), (''Processed Genre'', [])]\<rparr> = []"
    by code_simp
  from 1 2 3 4 show ?thesis by (intro conjI)
qed

text \<open>
  Claim C4, amended. For every band table that contains the target (its first row at
  position \<open>p\<close>) and whose \<open>Processed Genre\<close> cells are tag lists,
  \<open>filter_by_genre_overlap\<close> returns exactly the rows whose tags share a tag with the
  target's, in the order of the table and with all its columns, relabelled 0, 1, ...;
  the target's own row is among them exactly when the target has a tag.
\<close>

theorem filter_by_genre_overlap_exact:
  assumes wf: "wf_df merged_df"
    and ids: "getitem merged_df ''Band ID'' = Inr ids"
    and gs: "getitem merged_df ''Processed Genre'' = Inr (map TagsC tagss)"
    and p: "p < length ids" "ids ! p = IntC band_id" "\<forall>q<p. ids ! q \<noteq> IntC band_id"
  shows "\<exists>out. filter_by_genre_overlap merged_df band_id = Inr out
       \<and> map fst (columns out) = map fst (columns merged_df)
       \<and> rows out = map (row_at merged_df)
            (filter (\<lambda>i. set (tagss ! p) \<inter> set (tagss ! i) \<noteq> {}) [0..<length ids])
       \<and> index out = map int [0..<length (rows out)]
       \<and> (row_at merged_df p \<in> set (rows out) \<longleftrightarrow> tagss ! p \<noteq> [])"
proof -
  define ps where "ps = filter (\<lambda>i. set (tagss ! p) \<inter> set (tagss ! i) \<noteq> {}) [0..<length ids]"
  define out where "out = reset_index (take_rows merged_df ps)"
  have len: "length tagss = length ids"
    using getitem_length [OF wf ids] getitem_length [OF wf gs] by simp
  have mp: "mask_positions (map (\<lambda>ts. set (tagss ! p) \<inter> set ts \<noteq> {}) tagss) = ps"
    by (simp only: mask_positions_map len ps_def)
  have 1: "filter_by_genre_overlap merged_df band_id = Inr out"
    using filter_present [OF wf ids gs p] by (simp only: select_mask_def mp out_def)
  have 2: "map fst (columns out) = map fst (columns merged_df)"
    by (simp add: out_def reset_index_def take_rows_def comp_def)
  have 3: "rows out = map (row_at merged_df) ps"
    by (simp only: out_def rows_take_rows)
  have 4: "index out = map int [0..<length (rows out)]"
    by (simp add: 3) (simp add: out_def reset_index_def take_rows_def)
  have 5: "row_at merged_df p \<in> set (rows out) \<longleftrightarrow> tagss ! p \<noteq> []"
  proof
    assume m: "row_at merged_df p \<in> set (rows out)"
    show "tagss ! p \<noteq> []"
    proof
      assume "tagss ! p = []"
      then have "ps = []" by (simp add: ps_def)
      with m show False by (simp add: 3)
    qed
  next
    assume "tagss ! p \<noteq> []"
    then have "set (tagss ! p) \<inter> set (tagss ! p) \<noteq> {}" by simp
    then have "p \<in> set ps" using p(1) by (simp add: ps_def)
    then show "row_at merged_df p \<in> set (rows out)" by (simp add: 3)
  qed
  from 1 2 3 4 5 show ?thesis unfolding ps_def by blast
qed

theorem filter_by_genre_overlap_exact_witness:
  "wf_df example_bands
   \<and> getitem example_bands ''Band ID'' = Inr [IntC 1, IntC 2, IntC 3, IntC 4]
   \<and> getitem example_bands ''Processed Genre''
       = Inr (map TagsC [[''death metal''], [''death metal'', ''doom''], [''pop''],
                         [''death metal'']])
   \<and> [IntC 1, IntC 2, IntC 3, IntC 4] ! 1 = IntC 2
   \<and> [IntC 1, IntC 2, IntC 3, IntC 4] ! 0 \<noteq> IntC 2
   \<and> (\<exists>out. filter_by_genre_overlap example_bands 2 = Inr out
         \<and> rows out = map (row_at example_bands) [0, 1, 3]
         \<and> index out = [0, 1, 2]
         \<and> row_at example_bands 1 \<in> set (rows out))"
proof -
  let ?ids = "[IntC 1, IntC 2, IntC 3, IntC 4]"
  let ?tagss = "[[''death metal''], [''death metal'', ''doom''], [''pop''], [''death metal'']]"
  have wf: "wf_df example_bands" by code_simp
  have ids: "getitem example_bands ''Band ID'' = Inr ?ids" by code_simp
  have gs: "getitem example_bands ''Processed Genre'' = Inr (map TagsC ?tagss)" by code_simp
  have p1: "(1 :: nat) < length ?ids" by simp
  have p2: "?ids ! 1 = IntC 2" by simp
  have p3: "\<forall>q<1. ?ids ! q \<noteq> IntC 2" by simp
  have p4: "?ids ! 0 \<noteq> IntC 2" by simp
  have sel: "filter (\<lambda>i. set (?tagss ! 1) \<inter> set (?tagss ! i) \<noteq> {}) [0..<length ?ids]
               = [0, 1, 3]"
    by code_simp
  have ne: "?tagss ! 1 \<noteq> []" by simp
  from filter_by_genre_overlap_exact [OF wf ids gs p1 p2 p3]
  obtain out where o: "filter_by_genre_overlap example_bands 2 = Inr out"
    "rows out = map (row_at example_bands) [0, 1, 3]"
    "index out = map int [0..<length (rows out)]"
    "row_at example_bands 1 \<in> set (rows out)"
    unfolding sel using ne by blast
  have "index out = [0, 1, 2]" using o(2, 3) by (simp add: upt_rec)
  with o wf ids gs p2 p4 show ?thesis by blast
qed

lemma drop_columns_empty_frame:
  "drop_columns empty_frame (n # ns) = Inl (KeyError n)"
  by (simp add: drop_columns_def empty_frame_def)

text \<open>
  Claim C2. For a target that is not in the band table the genre filter returns the
  empty frame, and the pipeline is to return an explicitly empty result. The code drops
  the column \<open>Processed Genre\<close> from the empty frame next (line 131), which raises
  KeyError: \<open>get_recommendations\<close> ends in that exception for every such target.
\<close>

theorem unknown_band_raises:
  assumes "getitem merged_df ''Band ID'' = Inr ids" and "IntC band_id \<notin> set ids"
  shows "filter_by_genre_overlap merged_df band_id = Inr empty_frame
       \<and> get_recommendations argsort engine geoSimilarity merged_df similar_artists_df band_id
            genre_weight lyrical_weight similar_weight country_weight
          = Inl (KeyError ''Processed Genre'')"
proof -
  have f: "filter_by_genre_overlap merged_df band_id = Inr empty_frame"
    using assms by (rule filter_absent)
  have "scored_candidates engine geoSimilarity merged_df similar_artists_df band_id
            genre_weight lyrical_weight similar_weight country_weight
          = Inl (KeyError ''Processed Genre'')"
    unfolding scored_candidates_def Let_def f
    by (simp only: bind_res_Inr bind_res_Inl drop_columns_empty_frame)
  then show ?thesis using f by (simp add: get_recommendations_def)
qed

theorem unknown_band_raises_witness:
  "getitem example_bands ''Band ID'' = Inr [IntC 1, IntC 2, IntC 3, IntC 4]
   \<and> IntC 9 \<notin> set [IntC 1, IntC 2, IntC 3, IntC 4]
   \<and> filter_by_genre_overlap example_bands 9 = Inr empty_frame
   \<and> get_recommendations stable_argsort example_engine example_geo example_bands [] 9
        (Fin 1) (Fin 1) (Fin 1) (Fin 1) = Inl (KeyError ''Processed Genre'')"
proof -
  have ids: "getitem example_bands ''Band ID'' = Inr [IntC 1, IntC 2, IntC 3, IntC 4]"
    by code_simp
  have absent: "IntC 9 \<notin> set [IntC 1, IntC 2, IntC 3, IntC 4]" by simp
  from unknown_band_raises [OF ids absent] ids absent show ?thesis by blast
qed


section \<open>The frame of calculate\_similarity\<close>

lemma assign_col_fresh:
  "name \<notin> set (map fst cols) \<Longrightarrow> assign_col name vs cols = cols @ [(name, vs)]"
  by (induction cols) auto

lemma drop_columns_single:
  "n \<in> set (map fst (columns df)) \<Longrightarrow>
     drop_columns df [n] = Inr (df\<lparr>columns := filter (\<lambda>cv. fst cv \<noteq> n) (columns df)\<rparr>)"
  by (simp add: drop_columns_def)

lemma getitem_in_columns: "getitem df name = Inr vs \<Longrightarrow> name \<in> set (map fst (columns df))"
  by (auto simp: getitem_def split: option.splits dest!: map_of_SomeD intro!: image_eqI [where x = "(name, vs)"])

text \<open>
  Claim C10, as stated: on every non-empty candidate table \<open>calculate_similarity\<close> adds
  exactly one new column and leaves every column but the text column unchanged. On a
  table that already has a column \<open>Genre_Similarity\<close> the call for \<open>Genre\<close> adds no
  column: the assignment of line 95 overwrites the existing one (its values 5 and 6
  become 1 and 0), and the table goes from three columns to two.
\<close>

theorem calculate_similarity_overwrites_column:
  "\<not> df_empty example_scored
   \<and> map fst (columns example_scored) = [''Band ID'', ''Genre'', ''Genre_Similarity'']
   \<and> calculate_similarity example_engine example_scored 1 ''Genre''
       = Inr (Some [Fin 1, Fin 0],
              \<lparr>index = [0, 1], columns = [
                 (''Band ID'', [IntC 1, IntC 2]),
                 (''Genre_Similarity'', [NumC (Fin 1), NumC (Fin 0)])]\<rparr>)"
  by code_simp

text \<open>
  Claim C10, amended. On a well-formed, non-empty candidate table that holds the text
  column and a row of the target (whose row label is a valid position), on which the
  text similarity library raises nothing, and that has no column named
  \<open><column>_Similarity\<close> yet, \<open>calculate_similarity\<close> returns the scores and leaves the
  table with the same row labels, its columns other than the text column unchanged and
  in their order, and one new column \<open><column>_Similarity\<close> after them.
\<close>

theorem calculate_similarity_frame:
  assumes wf: "wf_df df"
    and ne: "\<not> df_empty df"
    and texts: "getitem df column = Inr texts"
    and eng: "engine texts = Inr cosine_sim_matrix"
    and ids: "getitem df ''Band ID'' = Inr ids"
    and p: "p < length ids" "ids ! p = IntC band_id" "\<forall>q<p. ids ! q \<noteq> IntC band_id"
    and label: "- int (length (index df)) \<le> index df ! p" "index df ! p < int (length (index df))"
    and fresh: "column @ ''_Similarity'' \<notin> set (map fst (columns df))"
  shows "\<exists>scores. length scores = length (index df)
       \<and> calculate_similarity engine df band_id column
           = Inr (Some scores,
                  df\<lparr>columns := filter (\<lambda>cv. fst cv \<noteq> column) (columns df)
                                   @ [(column @ ''_Similarity'', map NumC scores)]\<rparr>)"
proof -
  define n where "n = length (index df)"
  have lt: "length texts = n" using getitem_length [OF wf texts] by (simp add: n_def)
  define keep0 where "keep0 = map (\<lambda>c. c = IntC band_id) ids"
  have mp: "mask_positions keep0 = p # filter (\<lambda>i. keep0 ! i) [Suc p..<length keep0]"
    by (rule mask_positions_first) (use p in \<open>simp_all add: keep0_def\<close>)
  define r where "r = nat (if index df ! p < 0 then index df ! p + int n else index df ! p)"
  define scores where "scores = map (cosine_sim_matrix r) [0..<n]"
  define new where "new = column @ ''_Similarity''"
  have inrange: "\<not> (index df ! p < - int n \<or> int n \<le> index df ! p)"
    using label by (simp add: n_def)
  have ls: "length (map NumC scores) = length (index df)"
    by (simp add: scores_def n_def)
  have set1: "setitem df new (map NumC scores)
        = Inr (df\<lparr>columns := columns df @ [(new, map NumC scores)]\<rparr>)"
    using fresh ls by (simp add: setitem_def assign_col_fresh new_def)
  have cin: "column \<in> set (map fst (columns df))"
    using texts by (rule getitem_in_columns)
  then have cin': "column \<in> set (map fst (columns (df\<lparr>columns := columns df @ [(new, map NumC scores)]\<rparr>)))"
    by simp
  have neq: "new \<noteq> column" by (simp add: new_def)
  have drop1: "drop_columns (df\<lparr>columns := columns df @ [(new, map NumC scores)]\<rparr>) [column]
      = Inr (df\<lparr>columns := filter (\<lambda>cv. fst cv \<noteq> column) (columns df) @ [(new, map NumC scores)]\<rparr>)"
    using neq by (simp add: drop_columns_single [OF cin'])
  have "calculate_similarity engine df band_id column
      = Inr (Some scores,
             df\<lparr>columns := filter (\<lambda>cv. fst cv \<noteq> column) (columns df) @ [(new, map NumC scores)]\<rparr>)"
    unfolding calculate_similarity_def
    by (simp only: ne if_False texts bind_res_Inr eng ids keep0_def [symmetric] mp list.case
        Let_def lt inrange r_def [symmetric] scores_def [symmetric] new_def [symmetric]
        set1 cin' if_True drop1)
  moreover have "length scores = length (index df)" by (simp add: scores_def n_def)
  ultimately show ?thesis unfolding new_def by blast
qed

theorem calculate_similarity_frame_witness:
  "wf_df example_bands \<and> \<not> df_empty example_bands
   \<and> getitem example_bands ''Genre''
       = Inr [StrC ''death metal'', StrC ''death doom'', StrC ''pop'', StrC ''death metal'']
   \<and> getitem example_bands ''Band ID'' = Inr [IntC 1, IntC 2, IntC 3, IntC 4]
   \<and> [IntC 1, IntC 2, IntC 3, IntC 4] ! 1 = IntC 2
   \<and> [IntC 1, IntC 2, IntC 3, IntC 4] ! 0 \<noteq> IntC 2
   \<and> index example_bands ! 1 = 1
   \<and> ''Genre_Similarity'' \<notin> set (map fst (columns example_bands))
   \<and> calculate_similarity example_engine example_bands 2 ''Genre''
       = Inr (Some [Fin 0, Fin 1, Fin 0, Fin 0],
              \<lparr>index = [0, 1, 2, 3], columns = [
                 (''Band ID'', [IntC 1, IntC 2, IntC 3, IntC 4]),
                 (''Processed Genre'', [TagsC [''death metal''], TagsC [''death metal'', ''doom''],
                                        TagsC [''pop''], TagsC [''death metal'']]),
                 (''Themes:'', [StrC ''war'', StrC ''war'', StrC ''love'', StrC ''gore'']),
                 (''Genre_Similarity'', [NumC (Fin 0), NumC (Fin 1), NumC (Fin 0), NumC (Fin 0)])]\<rparr>)"
proof -
  let ?texts = "[StrC ''death metal'', StrC ''death doom'', StrC ''pop'', StrC ''death metal'']"
  let ?ids = "[IntC 1, IntC 2, IntC 3, IntC 4]"
  have wf: "wf_df example_bands" by code_simp
  have ne: "\<not> df_empty example_bands" by code_simp
  have texts: "getitem example_bands ''Genre'' = Inr ?texts" by code_simp
  have eng: "example_engine ?texts = Inr (\<lambda>i j. if ?texts ! i = ?texts ! j then Fin 1 else Fin 0)"
    by (simp only: example_engine_def)
  have ids: "getitem example_bands ''Band ID'' = Inr ?ids" by code_simp
  have p1: "(1 :: nat) < length ?ids" by simp
  have p2: "?ids ! 1 = IntC 2" by simp
  have p3: "\<forall>q<1. ?ids ! q \<noteq> IntC 2" by simp
  have p4: "?ids ! 0 \<noteq> IntC 2" by simp
  have ix: "index example_bands ! 1 = 1" by (simp add: example_bands_def)
  have l1: "- int (length (index example_bands)) \<le> index example_bands ! 1"
    by (simp add: example_bands_def)
  have l2: "index example_bands ! 1 < int (length (index example_bands))"
    by (simp add: example_bands_def)
  have fresh: "''Genre'' @ ''_Similarity'' \<notin> set (map fst (columns example_bands))"
    by (simp add: example_bands_def)
  have ev: "calculate_similarity example_engine example_bands 2 ''Genre''
       = Inr (Some [Fin 0, Fin 1, Fin 0, Fin 0],
              \<lparr>index = [0, 1, 2, 3], columns = [
                 (''Band ID'', [IntC 1, IntC 2, IntC 3, IntC 4]),
                 (''Processed Genre'', [TagsC [''death metal''], TagsC [''death metal'', ''doom''],
                                        TagsC [''pop''], TagsC [''death metal'']]),
                 (''Themes:'', [StrC ''war'', StrC ''war'', StrC ''love'', StrC ''gore'']),
                 (''Genre_Similarity'', [NumC (Fin 0), NumC (Fin 1), NumC (Fin 0), NumC (Fin 0)])]\<rparr>)"
    by code_simp
  from calculate_similarity_frame [where engine = example_engine and df = example_bands
      and column = "''Genre''" and texts = ?texts and ids = ?ids and p = 1 and band_id = 2,
      OF wf ne texts eng ids p1 p2 p3 l1 l2 fresh]
  obtain scores where "calculate_similarity example_engine example_bands 2 ''Genre''
           = Inr (Some scores,
                  example_bands\<lparr>columns := filter (\<lambda>cv. fst cv \<noteq> ''Genre'') (columns example_bands)
                                   @ [(''Genre'' @ ''_Similarity'', map NumC scores)]\<rparr>)"
    by blast
  moreover have "''Genre_Similarity'' \<notin> set (map fst (columns example_bands))"
    using fresh by simp
  ultimately show ?thesis using ev wf ne texts ids p2 p4 ix by blast
qed


section \<open>The final selection\<close>

lemma desc_key_less: "desc_key a < desc_key b \<longleftrightarrow> score_gt a b"
  by (cases a; cases b) (auto simp: score_gt_def less_prod_def)

lemma desc_key_eq: "desc_key a = desc_key b \<longleftrightarrow> a = b"
  by (cases a; cases b) auto

lemma sorted_wrt_filter_nth:
  assumes "sorted_wrt R (filter P xs)" and "i < j" and "j < length xs"
    and "P (xs ! i)" and "P (xs ! j)"
  shows "R (xs ! i) (xs ! j)"
proof -
  have "xs = take i xs @ xs ! i # drop (Suc i) xs"
    using assms(2,3) by (simp add: id_take_nth_drop)
  then have "filter P xs = filter P (take i xs) @ xs ! i # filter P (drop (Suc i) xs)"
    using assms(4) by (metis filter.simps(2) filter_append)
  with assms(1) have "\<forall>y\<in>set (filter P (drop (Suc i) xs)). R (xs ! i) y"
    by (simp add: sorted_wrt_append)
  moreover have "xs ! j \<in> set (drop (Suc i) xs)"
  proof -
    have "drop (Suc i) xs ! (j - Suc i) = xs ! j" using assms(2,3) by simp
    moreover have "j - Suc i < length (drop (Suc i) xs)" using assms(2,3) by simp
    ultimately show ?thesis by (metis nth_mem)
  qed
  ultimately show ?thesis using assms(5) by simp
qed

lemma stable_sorted:
  assumes "sorted_wrt (<) (xs :: nat list)"
  shows "sorted_wrt (\<lambda>a b. f a < f b \<or> (f a = f b \<and> a < b)) (sort_key f xs)"
    (is "sorted_wrt ?R ?L")
proof -
  have s: "sorted (map f ?L)" by (rule sorted_sort_key)
  have st: "\<And>k. sorted_wrt (<) (filter (\<lambda>y. f y = k) ?L)"
    using assms by (simp add: sort_key_stable sorted_wrt_filter)
  have "\<forall>i j. i < j \<longrightarrow> j < length ?L \<longrightarrow> ?R (?L ! i) (?L ! j)"
  proof (intro allI impI)
    fix i j assume ij: "i < j" "j < length ?L"
    have le: "f (?L ! i) \<le> f (?L ! j)"
      using s ij sorted_wrt_nth_less [of "\<lambda>x y. f x \<le> f y" ?L i j]
      by (simp add: sorted_map)
    show "?R (?L ! i) (?L ! j)"
    proof (cases "f (?L ! i) = f (?L ! j)")
      case True
      have "?L ! i < ?L ! j"
        by (rule sorted_wrt_filter_nth [OF st [of "f (?L ! j)"] ij]) (simp_all add: True)
      with True show ?thesis by simp
    next
      case False
      with le show ?thesis by simp
    qed
  qed
  then show ?thesis by (simp only: sorted_wrt_iff_nth_less)
qed

lemma argsort_desc_ranked: "sorted_wrt (ranks_before vs) (argsort_desc vs)"
proof -
  define f where "f = (\<lambda>i. desc_key (vs ! i))"
  define A where "A = filter (\<lambda>i. vs ! i \<noteq> NaN) [0..<length vs]"
  define B where "B = filter (\<lambda>i. vs ! i = NaN) [0..<length vs]"
  have rb: "\<And>a b. ranks_before vs a b \<longleftrightarrow> f a < f b \<or> (f a = f b \<and> a < b)"
    by (simp add: ranks_before_def f_def desc_key_less desc_key_eq)
  have "sorted_wrt (<) A" by (simp add: A_def sorted_wrt_filter)
  then have 1: "sorted_wrt (ranks_before vs) (sort_key f A)"
    using stable_sorted [of A f] by (simp add: rb [abs_def])
  have "sorted_wrt (<) B" by (simp add: B_def sorted_wrt_filter)
  then have 2: "sorted_wrt (ranks_before vs) B"
    by (rule sorted_wrt_mono_rel [rotated]) (auto simp: B_def ranks_before_def)
  have 3: "\<forall>a\<in>set (sort_key f A). \<forall>b\<in>set B. ranks_before vs a b"
    by (auto simp: A_def B_def ranks_before_def score_gt_def)
  show ?thesis
    unfolding argsort_desc_def f_def [symmetric] A_def [symmetric] B_def [symmetric]
    using 1 2 3 by (simp add: sorted_wrt_append)
qed


lemma sequence_res_nth:
  "sequence_res ms = Inr xs \<Longrightarrow> length xs = length ms \<and> (\<forall>i<length ms. ms ! i = Inr (xs ! i))"
proof (induction ms arbitrary: xs)
  case Nil
  then show ?case by simp
next
  case (Cons m ms)
  from Cons.prems obtain x where m: "m = Inr x"
    by (cases m) (simp_all add: bind_res_def)
  with Cons.prems obtain ys where ys: "sequence_res ms = Inr ys"
    by (cases "sequence_res ms") (simp_all add: bind_res_def)
  with m Cons.prems have xs: "xs = x # ys" by simp
  from Cons.IH [OF ys] have "length ys = length ms" "\<forall>i<length ms. ms ! i = Inr (ys ! i)"
    by simp_all
  then show ?case using m xs by (auto simp: nth_Cons split: nat.split)
qed

lemma sequence_res_map_nth:
  assumes "sequence_res (map g cs) = Inr vs" and "set ps \<subseteq> {0..<length cs}"
  shows "sequence_res (map g (map (\<lambda>p. cs ! p) ps)) = Inr (map (\<lambda>p. vs ! p) ps)"
proof -
  from sequence_res_nth [OF assms(1)]
  have "\<forall>i<length cs. g (cs ! i) = Inr (vs ! i)" by simp
  then have "map g (map (\<lambda>p. cs ! p) ps) = map (\<lambda>p. Inr (vs ! p)) ps"
    using assms(2) by auto
  then show ?thesis by (simp only: sequence_res_Inr)
qed

lemma numeric_column_length:
  assumes "wf_df df" and "numeric_column df name = Inr vs"
  shows "length vs = length (index df)"
proof -
  from assms(2) obtain cs where cs: "getitem df name = Inr cs"
    and sq: "sequence_res (map to_num cs) = Inr vs"
    by (cases "getitem df name") (simp_all add: numeric_column_def)
  from sequence_res_nth [OF sq] getitem_length [OF assms(1) cs] show ?thesis by simp
qed

lemma numeric_column_take_rows:
  assumes "wf_df df" and "numeric_column df name = Inr vs" and "set ps \<subseteq> {0..<length (index df)}"
  shows "numeric_column (take_rows df ps) name = Inr (map (\<lambda>p. vs ! p) ps)"
proof -
  from assms(2) obtain cs where cs: "getitem df name = Inr cs"
    and sq: "sequence_res (map to_num cs) = Inr vs"
    by (cases "getitem df name") (simp_all add: numeric_column_def)
  have "set ps \<subseteq> {0..<length cs}"
    using assms(3) getitem_length [OF assms(1) cs] by simp
  from sequence_res_map_nth [OF sq this] show ?thesis
    by (simp add: numeric_column_def getitem_take_rows [OF cs])
qed

lemma take_rows_take_rows:
  assumes "set qs \<subseteq> {0..<length ns}"
  shows "take_rows (take_rows df ns) qs = take_rows df (map (\<lambda>q. ns ! q) qs)"
proof -
  have "\<And>xs :: cell list. map (\<lambda>q. map (\<lambda>p. xs ! p) ns ! q) qs = map (\<lambda>q. xs ! (ns ! q)) qs"
    using assms by auto
  moreover have "map (\<lambda>q. map (\<lambda>p. index df ! p) ns ! q) qs = map (\<lambda>q. index df ! (ns ! q)) qs"
    using assms by auto
  ultimately show ?thesis by (simp add: take_rows_def comp_def)
qed

lemma top_of_ranked:
  assumes nt: "sorted_wrt (<) nt" and tot: "set nt \<subseteq> {0..<length totals}"
  shows "is_top_ranking k totals nt
           (map (\<lambda>q. nt ! q) (take k (argsort_desc (map (\<lambda>p. totals ! p) nt))))"
proof -
  define vs where "vs = map (\<lambda>p. totals ! p) nt"
  define L where "L = argsort_desc vs"
  define m where "m = length nt"
  have setL: "set L = {0..<m}" by (simp add: L_def set_argsort_desc vs_def m_def)
  have lenL: "length L = m" by (simp add: L_def length_argsort_desc vs_def m_def)
  have dL: "distinct L" by (simp add: L_def distinct_argsort_desc)
  have sL: "sorted_wrt (ranks_before vs) L" by (simp add: L_def argsort_desc_ranked)
  have mono: "\<And>a b. a < m \<Longrightarrow> b < m \<Longrightarrow> (nt ! a < nt ! b \<longleftrightarrow> a < b)"
  proof -
    fix a b assume ab: "a < m" "b < m"
    have 1: "a < b \<Longrightarrow> nt ! a < nt ! b"
      using nt ab by (simp add: sorted_wrt_nth_less m_def)
    have 2: "b < a \<Longrightarrow> nt ! b < nt ! a"
      using nt ab by (simp add: sorted_wrt_nth_less m_def)
    show "nt ! a < nt ! b \<longleftrightarrow> a < b"
      using 1 2 by (cases a b rule: linorder_cases) auto
  qed
  have tr: "\<And>a b. a < m \<Longrightarrow> b < m \<Longrightarrow>
      ranks_before vs a b \<Longrightarrow> ranks_before totals (nt ! a) (nt ! b)"
    using mono by (auto simp: ranks_before_def vs_def m_def)
  have sub: "set (take k L) \<subseteq> {0..<m}" using setL set_take_subset [of k L] by blast
  have a: "sorted_wrt (ranks_before totals) (map (\<lambda>q. nt ! q) (take k L))"
  proof -
    have "sorted_wrt (ranks_before vs) (take k L)" using sL by (rule sorted_wrt_take)
    then have "sorted_wrt (\<lambda>a b. ranks_before totals (nt ! a) (nt ! b)) (take k L)"
    proof (rule sorted_wrt_mono_rel [rotated])
      fix x y assume "x \<in> set (take k L)" "y \<in> set (take k L)" "ranks_before vs x y"
      moreover from this sub have "x < m" "y < m" by auto
      ultimately show "ranks_before totals (nt ! x) (nt ! y)" by (simp add: tr)
    qed
    then show ?thesis by (simp add: sorted_wrt_map)
  qed
  have b: "set (map (\<lambda>q. nt ! q) (take k L)) \<subseteq> set nt"
    using sub by (auto simp: m_def)
  have c: "length (map (\<lambda>q. nt ! q) (take k L)) = min k (length nt)"
    using lenL by (simp add: m_def min.commute)
  have d: "\<forall>i\<in>set (map (\<lambda>q. nt ! q) (take k L)).
             \<forall>j\<in>set nt - set (map (\<lambda>q. nt ! q) (take k L)). ranks_before totals i j"
  proof (intro ballI)
    fix i j
    assume i: "i \<in> set (map (\<lambda>q. nt ! q) (take k L))"
      and j: "j \<in> set nt - set (map (\<lambda>q. nt ! q) (take k L))"
    from i obtain a where a: "a \<in> set (take k L)" "i = nt ! a" by auto
    from j obtain b where b: "b < m" "j = nt ! b" by (auto simp: in_set_conv_nth m_def)
    have "b \<notin> set (take k L)" using j b by auto
    moreover have "set L = set (take k L) \<union> set (drop k L)"
      using set_append [of "take k L" "drop k L"] by simp
    moreover have "b \<in> set L" using b setL by simp
    ultimately have bd: "b \<in> set (drop k L)" by blast
    have "sorted_wrt (ranks_before vs) (take k L @ drop k L)" using sL by simp
    then have "ranks_before vs a b"
      using a(1) bd unfolding sorted_wrt_append by blast
    moreover have "a < m" using a(1) sub by auto
    ultimately show "ranks_before totals i j" using tr b a by simp
  qed
  from a b c d show ?thesis
    unfolding is_top_ranking_def vs_def [symmetric] L_def [symmetric] by blast
qed

lemma other_rows_sorted: "sorted_wrt (<) (other_rows band_id ids)"
  by (simp add: other_rows_def sorted_wrt_filter)

lemma other_rows_range: "set (other_rows band_id ids) \<subseteq> {0..<length ids}"
  by (auto simp: other_rows_def)

lemma frame_step_trans:
  "frame_step name d d' \<Longrightarrow> frame_step name d' d'' \<Longrightarrow> frame_step name d d''"
  by (simp add: frame_step_def)

lemma bind_res_eq_Inr: "bind_res m f = Inr y \<longleftrightarrow> (\<exists>x. m = Inr x \<and> f x = Inr y)"
  by (cases m) simp_all

lemma map_of_assign_col: "map_of (assign_col c vs cols) = (map_of cols)(c \<mapsto> vs)"
  by (induction cols) (auto simp: fun_eq_iff)

lemma names_assign_col: "set (map fst (assign_col c vs cols)) = insert c (set (map fst cols))"
proof (induction cols)
  case Nil
  then show ?case by simp
next
  case (Cons a cols)
  obtain c' ws where a: "a = (c', ws)" by (cases a)
  show ?case
  proof (cases "c' = c")
    case True
    then show ?thesis using a by auto
  next
    case False
    have "set (map fst (assign_col c vs (a # cols)))
            = insert c' (set (map fst (assign_col c vs cols)))"
      using a False by simp
    also have "\<dots> = insert c' (insert c (set (map fst cols)))"
      by (simp only: Cons.IH)
    finally show ?thesis using a by auto
  qed
qed

lemma distinct_assign_col:
  "distinct (map fst cols) \<Longrightarrow> distinct (map fst (assign_col c vs cols))"
proof (induction cols)
  case Nil
  then show ?case by simp
next
  case (Cons a cols)
  obtain c' ws where a: "a = (c', ws)" by (cases a)
  show ?case
  proof (cases "c' = c")
    case True
    with Cons.prems a show ?thesis by simp
  next
    case False
    have "c' \<notin> set (map fst (assign_col c vs cols))"
      using Cons.prems a False by (simp only: names_assign_col) simp
    with Cons a False show ?thesis by simp
  qed
qed

lemma lengths_assign_col:
  "list_all (\<lambda>cv. length (snd cv) = n) cols \<Longrightarrow> length vs = n \<Longrightarrow>
     list_all (\<lambda>cv. length (snd cv) = n) (assign_col c vs cols)"
  by (induction cols) auto

lemma setitem_step:
  assumes "wf_df d" and "length vs = length (index d)"
  shows "\<exists>d'. setitem d c vs = Inr d' \<and> wf_df d' \<and> index d' = index d
            \<and> getitem d' c = Inr vs \<and> (\<forall>name. name \<noteq> c \<longrightarrow> getitem d' name = getitem d name)"
proof -
  define d' where "d' = d\<lparr>columns := assign_col c vs (columns d)\<rparr>"
  have 1: "setitem d c vs = Inr d'" using assms(2) by (simp add: setitem_def d'_def)
  have 2: "wf_df d'"
    using assms by (simp add: wf_df_def d'_def distinct_assign_col lengths_assign_col)
  have 3: "index d' = index d" by (simp add: d'_def)
  have 4: "getitem d' c = Inr vs" by (simp add: getitem_def d'_def map_of_assign_col)
  have 5: "\<forall>name. name \<noteq> c \<longrightarrow> getitem d' name = getitem d name"
    by (simp add: getitem_def d'_def map_of_assign_col)
  from 1 2 3 4 5 show ?thesis by blast
qed

lemma map_of_filter_names:
  "name \<notin> S \<Longrightarrow> map_of (filter (\<lambda>cv. fst cv \<notin> S) cols) name = map_of cols name"
  by (induction cols) auto

lemma drop_columns_step:
  assumes "drop_columns d names = Inr d'" and "wf_df d"
  shows "wf_df d' \<and> index d' = index d
       \<and> (\<forall>name. name \<notin> set names \<longrightarrow> getitem d' name = getitem d name)"
proof -
  from assms(1) have d': "d' = d\<lparr>columns := filter (\<lambda>cv. fst cv \<notin> set names) (columns d)\<rparr>"
    by (auto simp: drop_columns_def split: list.splits)
  have "wf_df d'"
    using assms(2) by (simp add: wf_df_def d' distinct_map_filter list_all_iff)
  moreover have "index d' = index d" by (simp add: d')
  moreover have "\<forall>name. name \<notin> set names \<longrightarrow> getitem d' name = getitem d name"
    by (simp add: getitem_def d' map_of_filter_names)
  ultimately show ?thesis by blast
qed

lemma wf_take_rows: "wf_df d \<Longrightarrow> wf_df (take_rows d ps)"
  by (simp add: wf_df_def take_rows_def comp_def list_all_iff)

lemma wf_reset_index: "wf_df d \<Longrightarrow> wf_df (reset_index d)"
  by (simp add: wf_df_def reset_index_def)

lemma wf_empty_frame: "wf_df empty_frame"
  by (simp add: wf_df_def empty_frame_def)

lemma filter_by_genre_overlap_cases:
  assumes "filter_by_genre_overlap m b = Inr d"
  shows "d = empty_frame \<or> (\<exists>keep. d = reset_index (select_mask m keep))"
proof -
  from assms obtain ids where ids: "getitem m ''Band ID'' = Inr ids"
    unfolding filter_by_genre_overlap_def by (auto simp: bind_res_eq_Inr)
  define info where "info = select_mask m (map (\<lambda>c. c = IntC b) ids)"
  show ?thesis
  proof (cases "df_empty info")
    case True
    with assms ids have "d = empty_frame"
      unfolding filter_by_genre_overlap_def by (simp add: Let_def info_def)
    then show ?thesis by simp
  next
    case False
    with assms ids obtain gs where
      gs: "(case gs of [] \<Rightarrow> Inl IndexError
            | target_cell # _ \<Rightarrow>
                bind_res (getitem m ''Processed Genre'') (\<lambda>all_genres.
                  bind_res (sequence_res (map (\<lambda>genres.
                      bind_res (py_iter target_cell) (\<lambda>band_genres. any_in band_genres genres))
                    all_genres)) (\<lambda>keep. Inr (reset_index (select_mask m keep))))) = Inr d"
      unfolding filter_by_genre_overlap_def
      by (auto simp: Let_def info_def bind_res_eq_Inr)
    then obtain t ts where "gs = t # ts" by (cases gs) simp_all
    with gs obtain keep where "Inr (reset_index (select_mask m keep)) = (Inr d :: error + dataframe)"
      by (auto simp: bind_res_eq_Inr)
    then show ?thesis by auto
  qed
qed

lemma wf_filter_by_genre_overlap:
  assumes "filter_by_genre_overlap m b = Inr d" and "wf_df m"
  shows "wf_df d"
  using filter_by_genre_overlap_cases [OF assms(1)] assms(2)
  by (auto simp: wf_empty_frame select_mask_def wf_take_rows wf_reset_index)


lemma calculate_similarity_success:
  assumes "calculate_similarity e d b c = Inr (r, d')" and "\<not> df_empty d"
  shows "\<exists>texts scores df1. getitem d c = Inr texts \<and> length scores = length texts
       \<and> setitem d (c @ ''_Similarity'') (map NumC scores) = Inr df1
       \<and> (if c \<in> set (map fst (columns df1)) then drop_columns df1 [c] else Inr df1) = Inr d'"
proof -
  from assms obtain texts where texts: "getitem d c = Inr texts"
    unfolding calculate_similarity_def by (auto simp: bind_res_eq_Inr)
  from assms texts obtain M where M: "e texts = Inr M"
    unfolding calculate_similarity_def by (auto simp: bind_res_eq_Inr)
  from assms texts M obtain ids where ids: "getitem d ''Band ID'' = Inr ids"
    unfolding calculate_similarity_def by (auto simp: bind_res_eq_Inr)
  define ps where "ps = mask_positions (map (\<lambda>c. c = IntC b) ids)"
  from assms texts M ids have body: "(case ps of [] \<Rightarrow> Inl IndexError
      | p # _ \<Rightarrow>
          let band_idx = index d ! p; n = int (length texts)
          in if band_idx < - n \<or> n \<le> band_idx then Inl IndexError
             else
               let r = nat (if band_idx < 0 then band_idx + n else band_idx);
                   similarity_scores = map (M r) [0..<length texts]
               in bind_res (setitem d (c @ ''_Similarity'') (map NumC similarity_scores)) (\<lambda>df1.
                    bind_res (if c \<in> set (map fst (columns df1))
                              then drop_columns df1 [c] else Inr df1) (\<lambda>df2.
                      Inr (Some similarity_scores, df2)))) = Inr (r, d')"
    unfolding calculate_similarity_def ps_def by simp
  then obtain p ps' where p: "ps = p # ps'" by (cases ps) simp_all
  define k where "k = nat (if index d ! p < 0 then index d ! p + int (length texts) else index d ! p)"
  define scores where "scores = map (M k) [0..<length texts]"
  from body p have ok: "\<not> (index d ! p < - int (length texts) \<or> int (length texts) \<le> index d ! p)"
    by (auto simp: Let_def split: if_splits)
  with body p have "bind_res (setitem d (c @ ''_Similarity'') (map NumC scores)) (\<lambda>df1.
                    bind_res (if c \<in> set (map fst (columns df1))
                              then drop_columns df1 [c] else Inr df1) (\<lambda>df2.
                      Inr (Some scores, df2))) = Inr (r, d')"
    by (simp add: Let_def scores_def k_def)
  then obtain df1 where "setitem d (c @ ''_Similarity'') (map NumC scores) = Inr df1"
    and "(if c \<in> set (map fst (columns df1)) then drop_columns df1 [c] else Inr df1) = Inr d'"
    by (auto simp: bind_res_eq_Inr)
  moreover have "length scores = length texts" by (simp add: scores_def)
  ultimately show ?thesis using texts by blast
qed

lemma calculate_similarity_step:
  assumes cs: "calculate_similarity e d b c = Inr (r, d')" and wf: "wf_df d"
    and n1: "name \<noteq> c" and n2: "name \<noteq> c @ ''_Similarity''"
  shows "frame_step name d d'"
proof (cases "df_empty d")
  case True
  with cs have "d' = d" by (simp add: calculate_similarity_def)
  with wf show ?thesis by (simp add: frame_step_def)
next
  case False
  from calculate_similarity_success [OF cs False]
  obtain texts scores df1 where texts: "getitem d c = Inr texts"
    and ls: "length scores = length texts"
    and set1: "setitem d (c @ ''_Similarity'') (map NumC scores) = Inr df1"
    and drop1: "(if c \<in> set (map fst (columns df1)) then drop_columns df1 [c] else Inr df1) = Inr d'"
    by blast
  have "length (map NumC scores) = length (index d)"
    using ls getitem_length [OF wf texts] by simp
  from setitem_step [OF wf this, of "c @ ''_Similarity''"] set1 n2
  have s1: "frame_step name d df1" by (auto simp: frame_step_def)
  have "frame_step name df1 d'"
  proof (cases "c \<in> set (map fst (columns df1))")
    case True
    with drop1 have "drop_columns df1 [c] = Inr d'" by simp
    from drop_columns_step [OF this] s1 n1 show ?thesis by (simp add: frame_step_def)
  next
    case False
    with drop1 s1 show ?thesis by (simp add: frame_step_def)
  qed
  with s1 show ?thesis by (rule frame_step_trans)
qed

lemma setitem_frame_step:
  assumes "setitem d c vs = Inr d'" and "wf_df d" and "length vs = length (index d)"
    and "name \<noteq> c"
  shows "frame_step name d d'"
  using setitem_step [OF assms(2,3), of c] assms(1,4) by (auto simp: frame_step_def)

lemma add_geographic_step:
  assumes "add_geographic_similarity_to_band g d b = Inr d'" and "wf_df d"
    and "name \<noteq> ''Country_Similarity''"
  shows "frame_step name d d'"
proof -
  from assms(1) obtain ids where ids: "getitem d ''Band ID'' = Inr ids"
    and s: "setitem d ''Country_Similarity'' (map (\<lambda>c. NumC (g b ids c)) ids) = Inr d'"
    unfolding add_geographic_similarity_to_band_def by (auto simp: bind_res_eq_Inr)
  show ?thesis
    by (rule setitem_frame_step [OF s assms(2) _ assms(3)])
       (simp add: getitem_length [OF assms(2) ids])
qed

lemma normalize_column_step:
  assumes "normalize_column d c = Inr d'" and "wf_df d" and "name \<noteq> c"
  shows "frame_step name d d'"
proof -
  from assms(1) obtain vs where vs: "numeric_column d c = Inr vs"
    and s: "setitem d c (map NumC (normalize_score vs)) = Inr d'"
    unfolding normalize_column_def by (auto simp: bind_res_eq_Inr)
  show ?thesis
    by (rule setitem_frame_step [OF s assms(2) _ assms(3)])
       (simp add: normalize_score_def numeric_column_length [OF assms(2) vs])
qed

lemma drop_columns_frame_step:
  assumes "drop_columns d names = Inr d'" and "wf_df d" and "name \<notin> set names"
  shows "frame_step name d d'"
  using drop_columns_step [OF assms(1,2)] assms(3) by (simp add: frame_step_def)

lemma numeric_column_NumC:
  "getitem d c = Inr (map NumC xs) \<Longrightarrow> numeric_column d c = Inr xs"
  using sequence_res_Inr [of id xs] by (simp add: numeric_column_def comp_def)


lemma scored_candidates_frame:
  assumes sc: "scored_candidates e g m edges b gw lw sw cw = Inr df" and wf: "wf_df m"
  shows "\<exists>cand ids totals. filter_by_genre_overlap m b = Inr cand
       \<and> wf_df df \<and> index df = index cand
       \<and> getitem cand ''Band ID'' = Inr ids \<and> getitem df ''Band ID'' = Inr ids
       \<and> numeric_column df ''Total_Score'' = Inr totals"
proof -
  let ?B = "''Band ID''"
  from sc obtain df0 where f0: "filter_by_genre_overlap m b = Inr df0"
    and sc1: "bind_res (drop_columns df0 [''Processed Genre'']) (\<lambda>df1.
      bind_res (calculate_similarity e df1 b ''Genre'') (\<lambda>r2.
      bind_res (calculate_similarity e (snd r2) b ''Themes:'') (\<lambda>r3.
      bind_res (getitem (snd r3) ''Band ID'') (\<lambda>ids.
      bind_res (setitem (snd r3) ''Similar_Band_Score''
                  (map (\<lambda>c. NumC (reindex_score (get_complete_similar_bands edges b) c)) ids)) (\<lambda>df4.
      bind_res (add_geographic_similarity_to_band g df4 b) (\<lambda>df5.
      bind_res (normalize_column df5 ''Themes:_Similarity'') (\<lambda>df6.
      bind_res (normalize_column df6 ''Genre_Similarity'') (\<lambda>df7.
      bind_res (normalize_column df7 ''Similar_Band_Score'') (\<lambda>df8.
      bind_res (normalize_column df8 ''Country_Similarity'') (\<lambda>df9.
      bind_res (numeric_column df9 ''Themes:_Similarity'') (\<lambda>themes.
      bind_res (numeric_column df9 ''Similar_Band_Score'') (\<lambda>similar.
      bind_res (numeric_column df9 ''Genre_Similarity'') (\<lambda>genre.
      bind_res (numeric_column df9 ''Country_Similarity'') (\<lambda>country.
      bind_res (setitem df9 ''Total_Score''
                  (map NumC (total_score gw lw sw cw themes similar genre country))) (\<lambda>df10.
      drop_columns df10 [''Themes:_Similarity'', ''Similar_Band_Score'',
                         ''Genre_Similarity'', ''Country_Similarity'']))))))))))))))) = Inr df"
    unfolding scored_candidates_def Let_def by (auto simp: bind_res_eq_Inr)
  from sc1 obtain df1 r2 r3 ids df4 df5 where
        s1: "drop_columns df0 [''Processed Genre''] = Inr df1"
    and s2: "calculate_similarity e df1 b ''Genre'' = Inr r2"
    and s3: "calculate_similarity e (snd r2) b ''Themes:'' = Inr r3"
    and s4: "getitem (snd r3) ''Band ID'' = Inr ids"
    and s5: "setitem (snd r3) ''Similar_Band_Score''
                  (map (\<lambda>c. NumC (reindex_score (get_complete_similar_bands edges b) c)) ids) = Inr df4"
    and s6: "add_geographic_similarity_to_band g df4 b = Inr df5"
    and sc2: "bind_res (normalize_column df5 ''Themes:_Similarity'') (\<lambda>df6.
      bind_res (normalize_column df6 ''Genre_Similarity'') (\<lambda>df7.
      bind_res (normalize_column df7 ''Similar_Band_Score'') (\<lambda>df8.
      bind_res (normalize_column df8 ''Country_Similarity'') (\<lambda>df9.
      bind_res (numeric_column df9 ''Themes:_Similarity'') (\<lambda>themes.
      bind_res (numeric_column df9 ''Similar_Band_Score'') (\<lambda>similar.
      bind_res (numeric_column df9 ''Genre_Similarity'') (\<lambda>genre.
      bind_res (numeric_column df9 ''Country_Similarity'') (\<lambda>country.
      bind_res (setitem df9 ''Total_Score''
                  (map NumC (total_score gw lw sw cw themes similar genre country))) (\<lambda>df10.
      drop_columns df10 [''Themes:_Similarity'', ''Similar_Band_Score'',
                         ''Genre_Similarity'', ''Country_Similarity'']))))))))) = Inr df"
    by (auto simp: bind_res_eq_Inr)
  from sc2 obtain df6 df7 df8 df9 themes similar genre country df10 where
        s7: "normalize_column df5 ''Themes:_Similarity'' = Inr df6"
    and s8: "normalize_column df6 ''Genre_Similarity'' = Inr df7"
    and s9: "normalize_column df7 ''Similar_Band_Score'' = Inr df8"
    and s10: "normalize_column df8 ''Country_Similarity'' = Inr df9"
    and s11: "numeric_column df9 ''Themes:_Similarity'' = Inr themes"
    and s12: "setitem df9 ''Total_Score''
                  (map NumC (total_score gw lw sw cw themes similar genre country)) = Inr df10"
    and s13: "drop_columns df10 [''Themes:_Similarity'', ''Similar_Band_Score'',
                         ''Genre_Similarity'', ''Country_Similarity''] = Inr df"
    by (auto simp: bind_res_eq_Inr)
  have w0: "wf_df df0" by (rule wf_filter_by_genre_overlap [OF f0 wf])
  have t1: "frame_step ?B df0 df1"
    by (rule drop_columns_frame_step [OF s1 w0]) simp
  have t2: "frame_step ?B df1 (snd r2)"
    by (rule calculate_similarity_step [where r = "fst r2" and e = e and b = b and c = "''Genre''"])
       (use s2 t1 in \<open>simp_all add: frame_step_def\<close>)
  have t3: "frame_step ?B (snd r2) (snd r3)"
    by (rule calculate_similarity_step [where r = "fst r3" and e = e and b = b and c = "''Themes:''"])
       (use s3 t2 in \<open>simp_all add: frame_step_def\<close>)
  have w3: "wf_df (snd r3)" using t3 by (simp add: frame_step_def)
  have t4: "frame_step ?B (snd r3) df4"
    by (rule setitem_frame_step [OF s5 w3]) (simp_all add: getitem_length [OF w3 s4])
  have t5: "frame_step ?B df4 df5"
    by (rule add_geographic_step [OF s6]) (use t4 in \<open>simp_all add: frame_step_def\<close>)
  have t6: "frame_step ?B df5 df6"
    by (rule normalize_column_step [OF s7]) (use t5 in \<open>simp_all add: frame_step_def\<close>)
  have t7: "frame_step ?B df6 df7"
    by (rule normalize_column_step [OF s8]) (use t6 in \<open>simp_all add: frame_step_def\<close>)
  have t8: "frame_step ?B df7 df8"
    by (rule normalize_column_step [OF s9]) (use t7 in \<open>simp_all add: frame_step_def\<close>)
  have t9: "frame_step ?B df8 df9"
    by (rule normalize_column_step [OF s10]) (use t8 in \<open>simp_all add: frame_step_def\<close>)
  have w9: "wf_df df9" using t9 by (simp add: frame_step_def)
  define totals where "totals = total_score gw lw sw cw themes similar genre country"
  have lt: "length (map NumC totals) = length (index df9)"
    by (simp add: totals_def total_score_def numeric_column_length [OF w9 s11])
  from setitem_step [OF w9 lt, of "''Total_Score''"] s12
  have w10: "wf_df df10" and i10: "index df10 = index df9"
    and g10: "getitem df10 ''Total_Score'' = Inr (map NumC totals)"
    and b10: "getitem df10 ?B = getitem df9 ?B"
    by (auto simp: totals_def)
  from drop_columns_step [OF s13 w10]
  have wd: "wf_df df" and id: "index df = index df10"
    and gd: "getitem df ''Total_Score'' = getitem df10 ''Total_Score''"
    and bd: "getitem df ?B = getitem df10 ?B"
    by simp_all
  have chain: "index df9 = index df0" "getitem df9 ?B = getitem df0 ?B"
    "getitem (snd r3) ?B = getitem df0 ?B"
    using t1 t2 t3 t4 t5 t6 t7 t8 t9 by (simp_all add: frame_step_def)
  have "numeric_column df ''Total_Score'' = Inr totals"
    by (rule numeric_column_NumC) (simp add: gd g10)
  moreover have "getitem df0 ?B = Inr ids" using chain(3) s4 by simp
  moreover have "getitem df ?B = Inr ids" using bd b10 chain(2) calculation(2) by simp
  moreover have "index df = index df0" using id i10 chain(1) by simp
  ultimately show ?thesis using f0 wd by blast
qed


lemma length_other_rows:
  "length (other_rows b ids) = length ids - count_list ids (IntC b)"
proof -
  have "map (\<lambda>i. ids ! i) (filter (\<lambda>i. ids ! i \<noteq> IntC b) [0..<length ids])
          = filter (\<lambda>c. c \<noteq> IntC b) (map (\<lambda>i. ids ! i) [0..<length ids])"
    by (simp add: filter_map comp_def)
  then have "length (other_rows b ids) = length (filter (\<lambda>c. c \<noteq> IntC b) ids)"
    unfolding other_rows_def map_nth by (metis length_map)
  moreover have "length (filter (\<lambda>c. c \<noteq> IntC b) ids) + count_list ids (IntC b) = length ids"
    by (induction ids) auto
  ultimately show ?thesis by simp
qed

subsection \<open>The sort of ten rows or fewer\<close>

lemma asc_key_le: "a \<noteq> NaN \<Longrightarrow> b \<noteq> NaN \<Longrightarrow> asc_key a \<le> asc_key b \<longleftrightarrow> fle a b"
  by (cases a; cases b) (auto simp: less_eq_prod_def)

lemma is_argsort_sort_key:
  assumes "\<And>vs. distinct (xs vs) \<and> set (xs vs) = {0..<length vs}"
  shows "is_argsort (\<lambda>vs. sort_key (\<lambda>i. asc_key (vs ! i)) (xs vs))"
  unfolding is_argsort_def
proof (intro allI impI conjI)
  fix vs :: "fl list"
  assume nn: "NaN \<notin> set vs"
  let ?f = "\<lambda>i. asc_key (vs ! i)"
  let ?L = "sort_key ?f (xs vs)"
  show "distinct ?L" using assms [of vs] by simp
  show sL: "set ?L = {0..<length vs}" using assms [of vs] by simp
  have "sorted (map ?f ?L)" by (rule sorted_sort_key)
  then have "sorted_wrt (\<lambda>i j. ?f i \<le> ?f j) ?L" by (simp only: sorted_map)
  then show "sorted_wrt (\<lambda>i j. fle (vs ! i) (vs ! j)) ?L"
  proof (rule sorted_wrt_mono_rel [rotated])
    fix i j assume "i \<in> set ?L" "j \<in> set ?L" and le: "?f i \<le> ?f j"
    then have "i < length vs" "j < length vs" using sL by auto
    then have "vs ! i \<noteq> NaN" "vs ! j \<noteq> NaN" using nn nth_mem by metis+
    with le show "fle (vs ! i) (vs ! j)" by (simp add: asc_key_le)
  qed
qed

lemma is_argsort_stable: "is_argsort stable_argsort"
proof -
  have "is_argsort (\<lambda>vs. sort_key (\<lambda>i. asc_key (vs ! i)) [0..<length vs])"
    by (rule is_argsort_sort_key) simp
  then show ?thesis by (simp add: stable_argsort_def [abs_def])
qed

lemma is_argsort_reversing: "is_argsort reversing_argsort"
proof -
  have "is_argsort (\<lambda>vs. sort_key (\<lambda>i. asc_key (vs ! i)) (rev [0..<length vs]))"
    by (rule is_argsort_sort_key) simp
  then show ?thesis by (simp add: reversing_argsort_def [abs_def])
qed

lemma fle_not_score_gt: "fle b a \<Longrightarrow> \<not> score_gt b a"
  by (cases a; cases b) (auto simp: score_gt_def)

lemma score_gt_NaN: "\<not> score_gt NaN a"
  by (simp add: score_gt_def)

lemma ranks_before_not_gt: "ranks_before vs i j \<Longrightarrow> \<not> score_gt (vs ! j) (vs ! i)"
  by (cases "vs ! i"; cases "vs ! j") (auto simp: ranks_before_def score_gt_def)

lemma sort_values_desc_props:
  assumes "is_argsort argsort"
  shows "distinct (sort_values_desc argsort vs)"
    and "set (sort_values_desc argsort vs) = {0..<length vs}"
    and "sorted_wrt (\<lambda>a b. \<not> score_gt (vs ! b) (vs ! a)) (sort_values_desc argsort vs)"
proof -
  define A where "A = filter (\<lambda>i. vs ! i \<noteq> NaN) [0..<length vs]"
  define B where "B = filter (\<lambda>i. vs ! i = NaN) [0..<length vs]"
  define R where "R = rev A"
  define nn where "nn = map (\<lambda>i. vs ! i) R"
  define P where "P = argsort nn"
  define I where "I = rev (map (\<lambda>k. R ! k) P)"
  have sv: "sort_values_desc argsort vs = I @ B"
    by (simp only: sort_values_desc_def Let_def I_def P_def nn_def R_def A_def B_def)
  have setA: "set A = {i. i < length vs \<and> vs ! i \<noteq> NaN}" by (auto simp: A_def)
  have setB: "set B = {i. i < length vs \<and> vs ! i = NaN}" by (auto simp: B_def)
  have dB: "distinct B" by (simp add: B_def)
  have nonan: "NaN \<notin> set nn"
  proof
    assume "NaN \<in> set nn"
    then obtain i where "i \<in> set R" "vs ! i = NaN" by (auto simp: nn_def)
    then show False using setA by (simp add: R_def)
  qed
  from assms have "\<forall>ws. NaN \<notin> set ws \<longrightarrow>
        distinct (argsort ws) \<and> set (argsort ws) = {0..<length ws}
        \<and> sorted_wrt (\<lambda>i j. fle (ws ! i) (ws ! j)) (argsort ws)"
    by (simp only: is_argsort_def)
  then have "distinct (argsort nn) \<and> set (argsort nn) = {0..<length nn}
        \<and> sorted_wrt (\<lambda>i j. fle (nn ! i) (nn ! j)) (argsort nn)"
    using nonan by blast
  then have dP: "distinct P" and sP: "set P = {0..<length nn}"
    and oP: "sorted_wrt (\<lambda>i j. fle (nn ! i) (nn ! j)) P"
    by (simp_all only: P_def)
  have lR: "length nn = length R" by (simp add: nn_def)
  have dR: "distinct R" by (simp add: R_def A_def)
  have setI: "set I = set A"
  proof -
    have "set I = (\<lambda>k. R ! k) ` set P" by (simp add: I_def)
    also have "\<dots> = (\<lambda>k. R ! k) ` {0..<length R}" by (simp only: sP lR)
    also have "\<dots> = set (map (\<lambda>k. R ! k) [0..<length R])" by (simp only: set_map set_upt)
    also have "\<dots> = set R" by (simp only: map_nth)
    finally show ?thesis by (simp add: R_def)
  qed
  have dI: "distinct I"
  proof -
    have "inj_on (\<lambda>k. R ! k) (set P)"
    proof (rule inj_onI)
      fix x y assume "x \<in> set P" "y \<in> set P" and eq: "R ! x = R ! y"
      then have "x < length R" "y < length R" using sP lR by auto
      with eq dR show "x = y" by (simp add: nth_eq_iff_index_eq)
    qed
    then have "distinct (map (\<lambda>k. R ! k) P)" using dP by (simp add: distinct_map)
    then show ?thesis by (simp add: I_def)
  qed
  have "sorted_wrt (\<lambda>i j. fle (vs ! (R ! i)) (vs ! (R ! j))) P"
    using oP
  proof (rule sorted_wrt_mono_rel [rotated])
    fix i j assume "i \<in> set P" "j \<in> set P" and f: "fle (nn ! i) (nn ! j)"
    then have "i < length R" "j < length R" using sP lR by auto
    with f show "fle (vs ! (R ! i)) (vs ! (R ! j))" by (simp add: nn_def)
  qed
  then have "sorted_wrt (\<lambda>a b. fle (vs ! a) (vs ! b)) (map (\<lambda>k. R ! k) P)"
    by (simp only: sorted_wrt_map)
  then have "sorted_wrt (\<lambda>a b. fle (vs ! b) (vs ! a)) I"
    by (simp only: I_def sorted_wrt_rev)
  then have oI: "sorted_wrt (\<lambda>a b. \<not> score_gt (vs ! b) (vs ! a)) I"
  proof (rule sorted_wrt_mono_rel [rotated])
    fix a b assume "fle (vs ! b) (vs ! a)"
    then show "\<not> score_gt (vs ! b) (vs ! a)" by (rule fle_not_score_gt)
  qed
  have oB: "sorted_wrt (\<lambda>a b. \<not> score_gt (vs ! b) (vs ! a)) B"
  proof -
    have "\<forall>a\<in>set B. \<forall>b\<in>set B. \<not> score_gt (vs ! b) (vs ! a)"
      using setB score_gt_NaN by auto
    then show ?thesis by (simp add: sorted_wrt_iff_nth_less)
  qed
  have cross: "\<forall>a\<in>set I. \<forall>b\<in>set B. \<not> score_gt (vs ! b) (vs ! a)"
    using setB score_gt_NaN by auto
  have disj: "set I \<inter> set B = {}" using setI setA setB by auto
  show "distinct (sort_values_desc argsort vs)"
    unfolding sv using dI dB disj by simp
  have "set A \<union> set B = {0..<length vs}"
  proof (rule set_eqI)
    fix i show "i \<in> set A \<union> set B \<longleftrightarrow> i \<in> {0..<length vs}"
      by (cases "vs ! i = NaN") (simp_all add: setA setB)
  qed
  then show "set (sort_values_desc argsort vs) = {0..<length vs}"
    by (simp only: sv set_append setI)
  show "sorted_wrt (\<lambda>a b. \<not> score_gt (vs ! b) (vs ! a)) (sort_values_desc argsort vs)"
    unfolding sv sorted_wrt_append by (intro conjI oI oB cross)
qed

lemma argsort_desc_weak:
  "sorted_wrt (\<lambda>a b. \<not> score_gt (vs ! b) (vs ! a)) (argsort_desc vs)"
  using argsort_desc_ranked [of vs]
  by (rule sorted_wrt_mono_rel [rotated]) (simp add: ranks_before_not_gt)

lemma selection_of_sorted:
  assumes nt: "sorted_wrt (<) nt" and rng: "set nt \<subseteq> {0..<length totals}"
    and dL: "distinct L" and sL: "set L = {0..<length nt}"
    and wk: "sorted_wrt (\<lambda>a b. \<not> score_gt (map (\<lambda>p. totals ! p) nt ! b)
                                         (map (\<lambda>p. totals ! p) nt ! a)) L"
  shows "is_top_selection k totals nt (map (\<lambda>q. nt ! q) (take k L))"
proof -
  define m where "m = length nt"
  define vs where "vs = map (\<lambda>p. totals ! p) nt"
  have lenL: "length L = m"
    using dL sL distinct_card [of L] by (simp add: m_def)
  have dnt: "distinct nt" using nt by (simp add: strict_sorted_iff)
  have tr: "\<And>a b. a < m \<Longrightarrow> b < m \<Longrightarrow>
      \<not> score_gt (vs ! b) (vs ! a) \<Longrightarrow> \<not> score_gt (totals ! (nt ! b)) (totals ! (nt ! a))"
    by (simp add: vs_def m_def)
  have sub: "set (take k L) \<subseteq> {0..<m}" using sL set_take_subset [of k L] by (auto simp: m_def)
  have a: "distinct (map (\<lambda>q. nt ! q) (take k L))"
  proof -
    have "inj_on (\<lambda>q. nt ! q) (set (take k L))"
    proof (rule inj_onI)
      fix x y assume "x \<in> set (take k L)" "y \<in> set (take k L)" and eq: "nt ! x = nt ! y"
      then have "x < length nt" "y < length nt" using sub by (auto simp: m_def)
      with eq dnt show "x = y" by (simp add: nth_eq_iff_index_eq)
    qed
    then show ?thesis using dL by (simp add: distinct_map)
  qed
  have b: "set (map (\<lambda>q. nt ! q) (take k L)) \<subseteq> set nt"
    using sub by (auto simp: m_def)
  have c: "length (map (\<lambda>q. nt ! q) (take k L)) = min k (length nt)"
    using lenL by (simp add: m_def min.commute)
  have d: "sorted_wrt (\<lambda>i j. \<not> score_gt (totals ! j) (totals ! i)) (map (\<lambda>q. nt ! q) (take k L))"
  proof -
    have "sorted_wrt (\<lambda>a b. \<not> score_gt (vs ! b) (vs ! a)) (take k L)"
      using wk unfolding vs_def by (rule sorted_wrt_take)
    then have "sorted_wrt (\<lambda>a b. \<not> score_gt (totals ! (nt ! b)) (totals ! (nt ! a))) (take k L)"
    proof (rule sorted_wrt_mono_rel [rotated])
      fix x y assume "x \<in> set (take k L)" "y \<in> set (take k L)"
        "\<not> score_gt (vs ! y) (vs ! x)"
      moreover from this sub have "x < m" "y < m" by auto
      ultimately show "\<not> score_gt (totals ! (nt ! y)) (totals ! (nt ! x))" by (simp add: tr)
    qed
    then show ?thesis by (simp add: sorted_wrt_map)
  qed
  have e: "\<forall>i\<in>set (map (\<lambda>q. nt ! q) (take k L)).
             \<forall>j\<in>set nt - set (map (\<lambda>q. nt ! q) (take k L)).
               \<not> score_gt (totals ! j) (totals ! i)"
  proof (intro ballI)
    fix i j
    assume i: "i \<in> set (map (\<lambda>q. nt ! q) (take k L))"
      and j: "j \<in> set nt - set (map (\<lambda>q. nt ! q) (take k L))"
    from i obtain x where x: "x \<in> set (take k L)" "i = nt ! x" by auto
    from j obtain y where y: "y < m" "j = nt ! y" by (auto simp: in_set_conv_nth m_def)
    have "y \<notin> set (take k L)" using j y by auto
    moreover have "set L = set (take k L) \<union> set (drop k L)"
      using set_append [of "take k L" "drop k L"] by simp
    moreover have "y \<in> set L" using y sL by (simp add: m_def)
    ultimately have yd: "y \<in> set (drop k L)" by blast
    have "sorted_wrt (\<lambda>a b. \<not> score_gt (vs ! b) (vs ! a)) (take k L @ drop k L)"
      using wk by (simp add: vs_def)
    then have "\<not> score_gt (vs ! y) (vs ! x)"
      using x(1) yd unfolding sorted_wrt_append by blast
    moreover have "x < m" using x(1) sub by auto
    ultimately show "\<not> score_gt (totals ! j) (totals ! i)" using tr y x by simp
  qed
  from a b c d e show ?thesis unfolding is_top_selection_def by blast
qed

lemma select_top_selection:
  assumes wf: "wf_df df"
    and ids: "getitem df ''Band ID'' = Inr ids"
    and tot: "numeric_column df ''Total_Score'' = Inr totals"
    and srt: "is_argsort argsort"
  shows "\<exists>ps. select_top argsort band_id df = Inr (take_rows df ps)
            \<and> is_top_selection 10 totals (other_rows band_id ids) ps
            \<and> (10 < length (other_rows band_id ids) \<longrightarrow>
                  is_top_ranking 10 totals (other_rows band_id ids) ps)"
proof -
  define nt where "nt = other_rows band_id ids"
  define vs where "vs = map (\<lambda>p. totals ! p) nt"
  define L where "L = (if length vs \<le> 10 then sort_values_desc argsort vs else argsort_desc vs)"
  define ps where "ps = map (\<lambda>q. nt ! q) (take 10 L)"
  have li: "length ids = length (index df)" by (rule getitem_length [OF wf ids])
  have lt: "length totals = length (index df)" by (rule numeric_column_length [OF wf tot])
  have mp: "mask_positions (map (\<lambda>c. c \<noteq> IntC band_id) ids) = nt"
    by (simp only: mask_positions_map nt_def other_rows_def)
  have r: "set nt \<subseteq> {0..<length (index df)}"
    using other_rows_range [of band_id ids] by (simp add: nt_def li)
  have nc: "numeric_column (take_rows df nt) ''Total_Score'' = Inr vs"
    unfolding vs_def by (rule numeric_column_take_rows [OF wf tot r])
  have dL: "distinct L" and sL: "set L = {0..<length nt}"
    and wk: "sorted_wrt (\<lambda>a b. \<not> score_gt (vs ! b) (vs ! a)) L"
    using sort_values_desc_props [OF srt, of vs] distinct_argsort_desc [of vs]
      set_argsort_desc [of vs] argsort_desc_weak [of vs]
    by (simp_all add: L_def vs_def)
  have sub: "set (take 10 L) \<subseteq> {0..<length nt}"
    using set_take_subset [of 10 L] sL by simp
  have nl: "nlargest argsort 10 ''Total_Score'' (take_rows df nt)
              = Inr (take_rows (take_rows df nt) (take 10 L))"
    unfolding nlargest_def by (simp add: nc L_def)
  have 1: "select_top argsort band_id df = Inr (take_rows df ps)"
    unfolding select_top_def
    by (simp only: ids bind_res_Inr select_mask_def mp nl take_rows_take_rows [OF sub] ps_def)
  have sn: "sorted_wrt (<) nt" by (simp add: nt_def other_rows_sorted)
  have rt: "set nt \<subseteq> {0..<length totals}" using r lt by simp
  have 2: "is_top_selection 10 totals nt ps"
    unfolding ps_def using wk by (intro selection_of_sorted [OF sn rt dL sL]) (simp add: vs_def)
  have 3: "10 < length nt \<longrightarrow> is_top_ranking 10 totals nt ps"
  proof
    assume "10 < length nt"
    then have "L = argsort_desc (map (\<lambda>p. totals ! p) nt)" by (simp add: L_def vs_def)
    then show "is_top_ranking 10 totals nt ps"
      unfolding ps_def using top_of_ranked [OF sn rt, of 10] by simp
  qed
  from 1 2 3 show ?thesis unfolding nt_def by blast
qed

subsection \<open>The ranking returned\<close>

lemma is_top_selection_excludes:
  assumes "is_top_selection k totals (other_rows b ids) ps"
  shows "IntC b \<notin> set (map (\<lambda>p. ids ! p) ps)"
proof -
  have "\<forall>p\<in>set ps. ids ! p \<noteq> IntC b"
    using assms by (auto simp: is_top_selection_def other_rows_def)
  then show ?thesis by auto
qed

text \<open>
  Claim C6, as stated: the rows returned are in descending order of Total\_Score with
  rows of equal score in their original order, and there are \<open>min(10, n - 1)\<close> of them
  for \<open>n\<close> candidates. With ten or fewer rows left after the target's are removed,
  \<^verbatim>\<open>nlargest\<close> sorts them with numpy's quicksort, which does not keep equal values in
  order: in a store of five bands where bands 3 and 4 score the same, a sort that returns
  equal values in reverse order puts band 4 before band 3. And in a store that lists the
  target twice there are four candidates and two rows returned, not three.
\<close>

theorem final_ranking_ties_and_length:
  "is_argsort reversing_argsort
   \<and> scored_candidates example_engine example_geo example_ties [(5, 1, Fin (4 / 10))] 1
        (Fin 1) (Fin 1) (Fin 1) (Fin 1)
       = Inr \<lparr>index = [0, 1, 2, 3, 4],
              columns = [(''Band ID'', map IntC [1, 2, 3, 4, 5]),
                         (''Total_Score'', map (\<lambda>x. NumC (Fin x)) [4, 1 / 2, 0, 0, 3])]\<rparr>
   \<and> get_recommendations reversing_argsort example_engine example_geo example_ties
        [(5, 1, Fin (4 / 10))] 1 (Fin 1) (Fin 1) (Fin 1) (Fin 1)
       = Inr \<lparr>index = [4, 1, 3, 2],
              columns = [(''Band ID'', map IntC [5, 2, 4, 3]),
                         (''Total_Score'', map (\<lambda>x. NumC (Fin x)) [3, 1 / 2, 0, 0])]\<rparr>
   \<and> filter_by_genre_overlap example_twice 1 = Inr example_twice
   \<and> length (index example_twice) = 4
   \<and> get_recommendations stable_argsort example_engine example_geo example_twice
        [(2, 1, Fin (9 / 10))] 1 (Fin 1) (Fin 1) (Fin 1) (Fin 1)
       = Inr \<lparr>index = [2, 3],
              columns = [(''Band ID'', map IntC [2, 3]),
                         (''Total_Score'', map (\<lambda>x. NumC (Fin x)) [5 / 2, 0])]\<rparr>
   \<and> get_recommendations reversing_argsort example_engine example_geo example_twice
        [(2, 1, Fin (9 / 10))] 1 (Fin 1) (Fin 1) (Fin 1) (Fin 1)
       = Inr \<lparr>index = [2, 3],
              columns = [(''Band ID'', map IntC [2, 3]),
                         (''Total_Score'', map (\<lambda>x. NumC (Fin x)) [5 / 2, 0])]\<rparr>"
proof -
  have 1: "is_argsort reversing_argsort" by (rule is_argsort_reversing)
  have 2: "scored_candidates example_engine example_geo example_ties [(5, 1, Fin (4 / 10))] 1
        (Fin 1) (Fin 1) (Fin 1) (Fin 1)
       = Inr \<lparr>index = [0, 1, 2, 3, 4],
              columns = [(''Band ID'', map IntC [1, 2, 3, 4, 5]),
                         (''Total_Score'', map (\<lambda>x. NumC (Fin x)) [4, 1 / 2, 0, 0, 3])]\<rparr>"
    by code_simp
  have 3: "get_recommendations reversing_argsort example_engine example_geo example_ties
        [(5, 1, Fin (4 / 10))] 1 (Fin 1) (Fin 1) (Fin 1) (Fin 1)
       = Inr \<lparr>index = [4, 1, 3, 2],
              columns = [(''Band ID'', map IntC [5, 2, 4, 3]),
                         (''Total_Score'', map (\<lambda>x. NumC (Fin x)) [3, 1 / 2, 0, 0])]\<rparr>"
    by code_simp
  have 4: "filter_by_genre_overlap example_twice 1 = Inr example_twice" by code_simp
  have 5: "length (index example_twice) = 4" by (simp add: example_twice_def)
  have 6: "get_recommendations stable_argsort example_engine example_geo example_twice
        [(2, 1, Fin (9 / 10))] 1 (Fin 1) (Fin 1) (Fin 1) (Fin 1)
       = Inr \<lparr>index = [2, 3],
              columns = [(''Band ID'', map IntC [2, 3]),
                         (''Total_Score'', map (\<lambda>x. NumC (Fin x)) [5 / 2, 0])]\<rparr>"
    by code_simp
  have 7: "get_recommendations reversing_argsort example_engine example_geo example_twice
        [(2, 1, Fin (9 / 10))] 1 (Fin 1) (Fin 1) (Fin 1) (Fin 1)
       = Inr \<lparr>index = [2, 3],
              columns = [(''Band ID'', map IntC [2, 3]),
                         (''Total_Score'', map (\<lambda>x. NumC (Fin x)) [5 / 2, 0])]\<rparr>"
    by code_simp
  from 1 2 3 4 5 6 7 show ?thesis by (intro conjI)
qed

text \<open>
  Claim C6, amended. Whenever \<open>get_recommendations\<close> returns a table, whatever order
  numpy's sort gives to equal values, its rows are rows of the scored candidate table,
  each at most once and none of them the target's, in descending order of Total\_Score
  (rows without a score last), and no row left out has a larger score than a row
  returned. When more than ten rows are not the target's, rows of equal score are in
  their original order and every row left out ranks after every row returned. The table
  has \<open>min(10, n - t)\<close> rows for \<open>n\<close> candidates of which \<open>t\<close> are rows of the target,
  that is \<open>min(10, n - 1)\<close> when the target's identifier is unique.
\<close>

theorem final_ranking:
  assumes wf: "wf_df merged_df"
    and srt: "is_argsort argsort"
    and out: "get_recommendations argsort engine geoSimilarity merged_df similar_artists_df
                band_id genre_weight lyrical_weight similar_weight country_weight = Inr out"
  shows "\<exists>candidates scored ids totals ps.
      filter_by_genre_overlap merged_df band_id = Inr candidates
    \<and> getitem candidates ''Band ID'' = Inr ids
    \<and> length ids = length (index candidates)
    \<and> scored_candidates engine geoSimilarity merged_df similar_artists_df band_id
         genre_weight lyrical_weight similar_weight country_weight = Inr scored
    \<and> numeric_column scored ''Total_Score'' = Inr totals
    \<and> out = take_rows scored ps
    \<and> is_top_selection 10 totals (other_rows band_id ids) ps
    \<and> (10 < length (other_rows band_id ids)
          \<longrightarrow> is_top_ranking 10 totals (other_rows band_id ids) ps)
    \<and> getitem out ''Band ID'' = Inr (map (\<lambda>p. ids ! p) ps)
    \<and> IntC band_id \<notin> set (map (\<lambda>p. ids ! p) ps)
    \<and> length (index out) = min 10 (length ids - count_list ids (IntC band_id))
    \<and> (count_list ids (IntC band_id) = 1 \<longrightarrow> length (index out) = min 10 (length ids - 1))"
proof -
  from out obtain scored where
    sc: "scored_candidates engine geoSimilarity merged_df similar_artists_df band_id
           genre_weight lyrical_weight similar_weight country_weight = Inr scored"
    and st: "select_top argsort band_id scored = Inr out"
    unfolding get_recommendations_def by (auto simp: bind_res_eq_Inr)
  from scored_candidates_frame [OF sc wf] obtain candidates ids totals where
    f: "filter_by_genre_overlap merged_df band_id = Inr candidates"
    and wfs: "wf_df scored" and ix: "index scored = index candidates"
    and ci: "getitem candidates ''Band ID'' = Inr ids"
    and si: "getitem scored ''Band ID'' = Inr ids"
    and tot: "numeric_column scored ''Total_Score'' = Inr totals"
    by blast
  from select_top_selection [OF wfs si tot srt, of band_id] st obtain ps where
    o: "out = take_rows scored ps"
    and sel: "is_top_selection 10 totals (other_rows band_id ids) ps"
    and top: "10 < length (other_rows band_id ids)
                \<longrightarrow> is_top_ranking 10 totals (other_rows band_id ids) ps"
    by auto
  have li: "length ids = length (index candidates)"
    using getitem_length [OF wfs si] ix by simp
  have gi: "getitem out ''Band ID'' = Inr (map (\<lambda>p. ids ! p) ps)"
    unfolding o by (rule getitem_take_rows [OF si])
  have ex: "IntC band_id \<notin> set (map (\<lambda>p. ids ! p) ps)"
    using sel by (rule is_top_selection_excludes)
  have "length (index out) = length ps" by (simp add: o take_rows_def)
  also have "\<dots> = min 10 (length (other_rows band_id ids))"
    using sel by (simp add: is_top_selection_def)
  finally have ln: "length (index out) = min 10 (length ids - count_list ids (IntC band_id))"
    by (simp only: length_other_rows)
  then have l1: "count_list ids (IntC band_id) = 1 \<longrightarrow> length (index out) = min 10 (length ids - 1)"
    by simp
  from f ci li sc tot o sel top gi ex ln l1 show ?thesis by blast
qed

theorem final_ranking_witness:
  "wf_df example_large
   \<and> is_argsort stable_argsort
   \<and> get_recommendations stable_argsort example_engine example_geo example_large example_edges 1
        (Fin 1) (Fin 1) (Fin 1) (Fin 1) = Inr example_top
   \<and> getitem example_top ''Band ID'' = Inr (map IntC [2, 5, 3, 4, 6, 7, 9, 11, 8, 10])
   \<and> length (index example_top) = 10
   \<and> (\<exists>candidates scored ids totals ps.
           filter_by_genre_overlap example_large 1 = Inr candidates
         \<and> getitem candidates ''Band ID'' = Inr ids
         \<and> length ids = 12
         \<and> count_list ids (IntC 1) = 1
         \<and> scored_candidates example_engine example_geo example_large example_edges 1
              (Fin 1) (Fin 1) (Fin 1) (Fin 1) = Inr scored
         \<and> numeric_column scored ''Total_Score'' = Inr totals
         \<and> example_top = take_rows scored ps
         \<and> is_top_selection 10 totals (other_rows 1 ids) ps
         \<and> 10 < length (other_rows 1 ids)
         \<and> is_top_ranking 10 totals (other_rows 1 ids) ps
         \<and> length (index example_top) = min 10 (length ids - 1))"
proof -
  have wf: "wf_df example_large" by code_simp
  have srt: "is_argsort stable_argsort" by (rule is_argsort_stable)
  have ev: "get_recommendations stable_argsort example_engine example_geo example_large example_edges 1
        (Fin 1) (Fin 1) (Fin 1) (Fin 1) = Inr example_top"
    by code_simp
  have g: "getitem example_top ''Band ID'' = Inr (map IntC [2, 5, 3, 4, 6, 7, 9, 11, 8, 10])"
    by code_simp
  have l: "length (index example_top) = 10" by (simp add: example_top_def)
  have iv: "bind_res (filter_by_genre_overlap example_large 1) (\<lambda>c. getitem c ''Band ID'')
              = Inr (map IntC [1, 2, 3, 4, 5, 6, 7, 8, 9, 10, 11, 12])"
    by code_simp
  from final_ranking [OF wf srt ev] obtain candidates scored ids totals ps where
    f: "filter_by_genre_overlap example_large 1 = Inr candidates"
    and ci: "getitem candidates ''Band ID'' = Inr ids"
    and sc: "scored_candidates example_engine example_geo example_large example_edges 1
              (Fin 1) (Fin 1) (Fin 1) (Fin 1) = Inr scored"
    and tot: "numeric_column scored ''Total_Score'' = Inr totals"
    and o: "example_top = take_rows scored ps"
    and sel: "is_top_selection 10 totals (other_rows 1 ids) ps"
    and top: "10 < length (other_rows 1 ids) \<longrightarrow> is_top_ranking 10 totals (other_rows 1 ids) ps"
    and ln: "count_list ids (IntC 1) = 1 \<longrightarrow> length (index example_top) = min 10 (length ids - 1)"
    by blast
  have idv: "ids = map IntC [1, 2, 3, 4, 5, 6, 7, 8, 9, 10, 11, 12]"
    using iv by (simp only: f ci bind_res_Inr sum.inject)
  have n: "length ids = 12" by (simp add: idv)
  have c: "count_list ids (IntC 1) = 1" by (simp add: idv)
  have m: "10 < length (other_rows 1 ids)" by (simp only: length_other_rows n c)
  from top m have t: "is_top_ranking 10 totals (other_rows 1 ids) ps" by simp
  from ln c have ln1: "length (index example_top) = min 10 (length ids - 1)" by simp
  from wf srt ev g l f ci n c sc tot o sel m t ln1 show ?thesis by blast
qed

end
